theory Spec2Isabelle
  imports Complex_Main "HOL-Library.Multiset"
begin

section \<open>Mesh smoothing of GEL's HMesh (smooth.cpp)\<close>

text \<open>
  The half-edge mesh itself (Manifold, Walker, the boundary predicate) is an external
  collaborator of smooth.cpp.  What smooth.cpp reads from it is kept in a record: the
  enumeration \<open>m.vertices()\<close> in mesh order and the predicate \<open>boundary(m, v)\<close>.
  \<open>m.no_vertices()\<close> is the number of enumerated vertices.
\<close>

subsection \<open>Data model\<close>

type_synonym VertexID = nat

datatype error = DivisionByZero | SignedOverflow

record Manifold =
  vertices :: "VertexID list"
  boundary :: "VertexID \<Rightarrow> bool"

definition no_vertices :: "Manifold \<Rightarrow> nat" where
  "no_vertices m = length (vertices m)"

text \<open>\<open>int CORES = 8;\<close>\<close>

definition CORES :: nat where
  "CORES = 8"

text \<open>The largest value of the C++ \<open>int\<close> counter \<open>cnt\<close>.\<close>

definition INT_MAX :: nat where
  "INT_MAX = 2147483647"

type_synonym VertexIDBatches = "VertexID list list"

subsection \<open>batch_vertices\<close>

text \<open>
  The body of the lambda passed to \<open>for_each_vertex\<close>, run over the vertices in mesh
  order.  The state is the counter \<open>cnt\<close> and the batches.  \<open>cnt++\<close> on \<open>INT_MAX\<close> and
  the division by a zero \<open>batch_size\<close> are undefined behaviour in C++; both are results
  of the model.  The index \<open>(cnt / batch_size) % CORES\<close> is below \<open>CORES\<close>, the length
  of \<open>vertex_ids\<close>, so the \<open>push_back\<close> is always in range.
\<close>

fun batch_loop ::
  "(VertexID \<Rightarrow> bool) \<Rightarrow> nat \<Rightarrow> VertexID list \<Rightarrow> nat \<Rightarrow> VertexIDBatches
    \<Rightarrow> error + (nat \<times> VertexIDBatches)" where
  "batch_loop bnd batch_size [] cnt vertex_ids = Inr (cnt, vertex_ids)"
| "batch_loop bnd batch_size (v # vs) cnt vertex_ids =
     (if \<not> bnd v then
        (if cnt = INT_MAX then Inl SignedOverflow
         else if batch_size = 0 then Inl DivisionByZero
         else let i = (cnt div batch_size) mod CORES
              in batch_loop bnd batch_size vs (cnt + 1)
                   (vertex_ids[i := vertex_ids ! i @ [v]]))
      else batch_loop bnd batch_size vs cnt vertex_ids)"

definition batch_vertices :: "Manifold \<Rightarrow> error + VertexIDBatches" where
  "batch_vertices m =
     (let vertex_ids = replicate CORES [];
          batch_size = no_vertices m div CORES
      in case batch_loop (boundary m) batch_size (vertices m) 0 vertex_ids of
           Inl e \<Rightarrow> Inl e
         | Inr (cnt, ids) \<Rightarrow> Inr ids)"

text \<open>The non-boundary vertices of a mesh, in mesh order.\<close>

definition interior :: "Manifold \<Rightarrow> VertexID list" where
  "interior m = filter (\<lambda>v. \<not> boundary m v) (vertices m)"

text \<open>Example meshes: a closed tetrahedron, a single triangle, and a closed cube.\<close>

definition tetrahedron :: Manifold where
  "tetrahedron = \<lparr> vertices = [0, 1, 2, 3], boundary = (\<lambda>v. False) \<rparr>"

definition single_triangle :: Manifold where
  "single_triangle = \<lparr> vertices = [0, 1, 2], boundary = (\<lambda>v. True) \<rparr>"

definition cube :: Manifold where
  "cube = \<lparr> vertices = [0, 1, 2, 3, 4, 5, 6, 7], boundary = (\<lambda>v. False) \<rparr>"

subsection \<open>Numbers and vectors\<close>

text \<open>
  A C++ \<open>double\<close> is one of: a finite number, \<open>+infinity\<close>, \<open>-infinity\<close>, or a NaN.  The
  special values and the overflow of a finite result to an infinity are modelled as IEEE
  754 prescribes them; everything else about finite arithmetic is idealised: a finite
  result is the exact real number (no rounding of the mantissa, no underflow), zero is
  unsigned and counts as positive in a division, and \<open>float\<close> is not told apart from
  \<open>double\<close>.
\<close>

datatype double = Fin real | PInf | NInf | NaN

definition DBL_MAX :: real where
  "DBL_MAX = (2 ^ 53 - 1) * 2 ^ 971"

definition dbl :: "real \<Rightarrow> double" where
  "dbl r = (if DBL_MAX < r then PInf else if r < - DBL_MAX then NInf else Fin r)"

fun isnan :: "double \<Rightarrow> bool" where
  "isnan NaN = True"
| "isnan _ = False"

fun dneg :: "double \<Rightarrow> double" where
  "dneg (Fin a) = Fin (- a)"
| "dneg PInf = NInf"
| "dneg NInf = PInf"
| "dneg NaN = NaN"

fun dadd :: "double \<Rightarrow> double \<Rightarrow> double" where
  "dadd (Fin a) (Fin b) = dbl (a + b)"
| "dadd (Fin a) PInf = PInf"
| "dadd (Fin a) NInf = NInf"
| "dadd PInf (Fin b) = PInf"
| "dadd PInf PInf = PInf"
| "dadd PInf NInf = NaN"
| "dadd NInf (Fin b) = NInf"
| "dadd NInf PInf = NaN"
| "dadd NInf NInf = NInf"
| "dadd NaN _ = NaN"
| "dadd _ NaN = NaN"

definition dsub :: "double \<Rightarrow> double \<Rightarrow> double" where
  "dsub a b = dadd a (dneg b)"

text \<open>An infinity times a finite number: NaN for zero, else the sign rule.\<close>

definition inf_times :: "bool \<Rightarrow> real \<Rightarrow> double" where
  "inf_times positive b =
     (if b = 0 then NaN else if (0 < b) = positive then PInf else NInf)"

fun dmul :: "double \<Rightarrow> double \<Rightarrow> double" where
  "dmul (Fin a) (Fin b) = dbl (a * b)"
| "dmul (Fin a) PInf = inf_times True a"
| "dmul (Fin a) NInf = inf_times False a"
| "dmul PInf (Fin b) = inf_times True b"
| "dmul PInf PInf = PInf"
| "dmul PInf NInf = NInf"
| "dmul NInf (Fin b) = inf_times False b"
| "dmul NInf PInf = NInf"
| "dmul NInf NInf = PInf"
| "dmul NaN _ = NaN"
| "dmul _ NaN = NaN"

text \<open>
  Division: \<open>0/0\<close> and \<open>inf/inf\<close> are NaN, a non-zero finite number over zero is an
  infinity, a finite number over an infinity is zero.
\<close>

fun ddiv :: "double \<Rightarrow> double \<Rightarrow> double" where
  "ddiv (Fin a) (Fin b) =
     (if b = 0 then (if a = 0 then NaN else if 0 < a then PInf else NInf)
      else dbl (a / b))"
| "ddiv (Fin a) PInf = Fin 0"
| "ddiv (Fin a) NInf = Fin 0"
| "ddiv PInf (Fin b) = (if 0 \<le> b then PInf else NInf)"
| "ddiv NInf (Fin b) = (if 0 \<le> b then NInf else PInf)"
| "ddiv PInf PInf = NaN"
| "ddiv PInf NInf = NaN"
| "ddiv NInf PInf = NaN"
| "ddiv NInf NInf = NaN"
| "ddiv NaN _ = NaN"
| "ddiv _ NaN = NaN"

text \<open>The comparison \<open>a < b\<close>: false as soon as one side is a NaN.\<close>

fun dless :: "double \<Rightarrow> double \<Rightarrow> bool" where
  "dless (Fin a) (Fin b) = (a < b)"
| "dless (Fin a) PInf = True"
| "dless NInf (Fin b) = True"
| "dless NInf PInf = True"
| "dless _ _ = False"

text \<open>
  \<open>std::max(a, b)\<close> is \<open>(a < b) ? b : a\<close> and \<open>std::min(a, b)\<close> is \<open>(b < a) ? b : a\<close>.
\<close>

definition dmax :: "double \<Rightarrow> double \<Rightarrow> double" where
  "dmax a b = (if dless a b then b else a)"

definition dmin :: "double \<Rightarrow> double \<Rightarrow> double" where
  "dmin a b = (if dless b a then b else a)"

fun dsqrt :: "double \<Rightarrow> double" where
  "dsqrt (Fin a) = (if a < 0 then NaN else Fin (sqrt a))"
| "dsqrt PInf = PInf"
| "dsqrt _ = NaN"

fun dsin :: "double \<Rightarrow> double" where
  "dsin (Fin a) = Fin (sin a)"
| "dsin _ = NaN"

fun dacos :: "double \<Rightarrow> double" where
  "dacos (Fin a) = (if - 1 \<le> a \<and> a \<le> 1 then Fin (arccos a) else NaN)"
| "dacos _ = NaN"

fun dexp :: "double \<Rightarrow> double" where
  "dexp (Fin a) = dbl (exp a)"
| "dexp PInf = PInf"
| "dexp NInf = Fin 0"
| "dexp NaN = NaN"

text \<open>\<open>CGLA::Vec3d\<close> and the vector operations smooth.cpp uses.\<close>

datatype Vec3d = Vec3d double double double

definition vzero :: Vec3d where
  "vzero = Vec3d (Fin 0) (Fin 0) (Fin 0)"

fun vadd :: "Vec3d \<Rightarrow> Vec3d \<Rightarrow> Vec3d" where
  "vadd (Vec3d a b c) (Vec3d x y z) = Vec3d (dadd a x) (dadd b y) (dadd c z)"

fun vsub :: "Vec3d \<Rightarrow> Vec3d \<Rightarrow> Vec3d" where
  "vsub (Vec3d a b c) (Vec3d x y z) = Vec3d (dsub a x) (dsub b y) (dsub c z)"

fun smul :: "double \<Rightarrow> Vec3d \<Rightarrow> Vec3d" where
  "smul k (Vec3d x y z) = Vec3d (dmul k x) (dmul k y) (dmul k z)"

fun vdiv :: "Vec3d \<Rightarrow> double \<Rightarrow> Vec3d" where
  "vdiv (Vec3d x y z) k = Vec3d (ddiv x k) (ddiv y k) (ddiv z k)"

fun dot :: "Vec3d \<Rightarrow> Vec3d \<Rightarrow> double" where
  "dot (Vec3d a b c) (Vec3d x y z) = dadd (dadd (dmul a x) (dmul b y)) (dmul c z)"

definition sqr_length :: "Vec3d \<Rightarrow> double" where
  "sqr_length v = dot v v"

fun vfinite :: "Vec3d \<Rightarrow> bool" where
  "vfinite (Vec3d (Fin a) (Fin b) (Fin c)) = True"
| "vfinite _ = False"

subsection \<open>laplacian_smooth and taubin_smooth\<close>

text \<open>
  The mesh topology is never changed by smooth.cpp, so the record \<open>Manifold\<close> above stays
  fixed and the position attribute vector of the mesh is passed along as a function from
  \<open>VertexID\<close> to \<open>Vec3d\<close>.  A smoothing state is the pair of the live position buffer
  \<open>m.positions_attribute_vector()\<close> and the scratch buffer \<open>new_pos\<close>.  The function
  \<open>laplacian(m, v)\<close> is not defined in smooth.cpp: it is a parameter \<open>lap\<close>, applied to the
  live positions.
\<close>

type_synonym positions = "VertexID \<Rightarrow> Vec3d"

text \<open>The lambda \<open>f\<close> of \<open>laplacian_smooth\<close>, for one batch.\<close>

definition smooth_batch ::
  "(positions \<Rightarrow> VertexID \<Rightarrow> Vec3d) \<Rightarrow> double \<Rightarrow> positions \<Rightarrow> VertexID list \<Rightarrow> positions
    \<Rightarrow> positions" where
  "smooth_batch lap weight live vids new_pos =
     fold (\<lambda>v np. np(v := vadd (live v) (smul weight (lap live v)))) vids new_pos"

text \<open>
  \<open>for_each_vertex_parallel\<close> starts one thread per batch index \<open>0 .. no_threads - 1\<close> and
  joins them.  The threads of \<open>laplacian_smooth\<close> write to \<open>new_pos\<close> only and read the
  live buffer only; they are run here one after the other, in the order of the batches.
\<close>

definition for_each_vertex_parallel ::
  "nat \<Rightarrow> VertexIDBatches \<Rightarrow> (VertexID list \<Rightarrow> positions \<Rightarrow> positions) \<Rightarrow> positions
    \<Rightarrow> positions" where
  "for_each_vertex_parallel no_threads batches f new_pos =
     fold (\<lambda>t np. f (batches ! t) np) [0..<no_threads] new_pos"

text \<open>One pass of the loop body: the parallel sweep, then the swap of the buffers.\<close>

definition laplacian_sweep ::
  "(positions \<Rightarrow> VertexID \<Rightarrow> Vec3d) \<Rightarrow> double \<Rightarrow> VertexIDBatches \<Rightarrow> positions \<times> positions
    \<Rightarrow> positions \<times> positions" where
  "laplacian_sweep lap weight vertex_ids st =
     (case st of (live, new_pos) \<Rightarrow>
        (for_each_vertex_parallel CORES vertex_ids (smooth_batch lap weight live) new_pos,
         live))"

text \<open>
  \<open>range(0, max_iter)\<close> stores its bounds in \<open>unsigned long\<close> iterators compared with
  \<open>!=\<close>: the loop runs \<open>max_iter mod 2^64\<close> times.
\<close>

definition range_count :: "int \<Rightarrow> nat" where
  "range_count max_iter = nat (max_iter mod 2 ^ 64)"

definition laplacian_smooth ::
  "(positions \<Rightarrow> VertexID \<Rightarrow> Vec3d) \<Rightarrow> Manifold \<Rightarrow> positions \<Rightarrow> double \<Rightarrow> int
    \<Rightarrow> error + positions" where
  "laplacian_smooth lap m live weight max_iter =
     (case batch_vertices m of
        Inl e \<Rightarrow> Inl e
      | Inr vertex_ids \<Rightarrow>
          Inr (fst ((laplacian_sweep lap weight vertex_ids ^^ range_count max_iter)
                      (live, live))))"

text \<open>The step of a Taubin sub-iteration: \<open>iter%2 == 0 ? +0.5 : -0.52\<close>.\<close>

definition taubin_step :: "nat \<Rightarrow> double" where
  "taubin_step iter = (if iter mod 2 = 0 then Fin 0.5 else Fin (- 0.52))"

text \<open>One sub-iteration of \<open>taubin_smooth\<close>: the loop over the vertices, then the swap.\<close>

definition taubin_sub_iteration ::
  "(positions \<Rightarrow> VertexID \<Rightarrow> Vec3d) \<Rightarrow> Manifold \<Rightarrow> nat \<Rightarrow> positions \<times> positions
    \<Rightarrow> positions \<times> positions" where
  "taubin_sub_iteration lap m iter st =
     (case st of (live, new_pos) \<Rightarrow>
        (fold (\<lambda>v np. if \<not> boundary m v
                       then np(v := vadd (smul (taubin_step iter) (lap live v)) (live v))
                       else np)
           (vertices m) new_pos,
         live))"

function taubin_loop ::
  "(positions \<Rightarrow> VertexID \<Rightarrow> Vec3d) \<Rightarrow> Manifold \<Rightarrow> nat \<Rightarrow> nat \<Rightarrow> positions \<times> positions
    \<Rightarrow> positions \<times> positions" where
  "taubin_loop lap m limit iter st =
     (if iter < limit
      then taubin_loop lap m limit (iter + 1) (taubin_sub_iteration lap m iter st)
      else st)"
  by pat_completeness auto
termination
  by (relation "measure (\<lambda>(lap, m, limit, iter, st). limit - iter)") auto

declare taubin_loop.simps [simp del]

text \<open>
  \<open>2*max_iter\<close> is an \<open>int\<close> product: outside the range of \<open>int\<close> it is undefined
  behaviour.  A negative bound runs no sub-iteration.
\<close>

definition taubin_smooth ::
  "(positions \<Rightarrow> VertexID \<Rightarrow> Vec3d) \<Rightarrow> Manifold \<Rightarrow> positions \<Rightarrow> int \<Rightarrow> error + positions" where
  "taubin_smooth lap m live max_iter =
     (if 2 * max_iter < - 2147483648 \<or> 2147483647 < 2 * max_iter then Inl SignedOverflow
      else Inr (fst (taubin_loop lap m (nat (2 * max_iter)) 0 (live, live))))"

text \<open>
  Modelled from the spec: \<open>laplacian(m, v)\<close> is called by smooth.cpp and defined outside
  it.  The spec gives the uniform Laplacian as the mean of the neighbour positions minus
  the position of \<open>v\<close>; \<open>ring v\<close> lists the neighbours of \<open>v\<close>.  It is used for the example
  runs only; the theorems below hold for every \<open>lap\<close>.
\<close>

definition uniform_laplacian :: "(VertexID \<Rightarrow> VertexID list) \<Rightarrow> positions \<Rightarrow> VertexID \<Rightarrow> Vec3d" where
  "uniform_laplacian ring live v =
     vsub (vdiv (fold (\<lambda>n p. vadd p (live n)) (ring v) vzero) (Fin (real (length (ring v)))))
       (live v)"

text \<open>
  A 3 by 3 grid of vertices: the eight outer vertices are boundary vertices, the centre
  vertex 4 is not and is lifted out of the plane of the others.
\<close>

definition grid3 :: Manifold where
  "grid3 = \<lparr> vertices = [0, 1, 2, 3, 4, 5, 6, 7, 8], boundary = (\<lambda>v. v \<noteq> 4) \<rparr>"

definition grid3_ring :: "VertexID \<Rightarrow> VertexID list" where
  "grid3_ring v = (if v = 4 then [5, 7, 3, 1] else [])"

definition grid3_pos :: positions where
  "grid3_pos v =
     (if v = 4 then Vec3d (Fin 1) (Fin 1) (Fin 1)
      else Vec3d (Fin (real (v mod 3))) (Fin (real (v div 3))) (Fin 0))"

subsection \<open>Half-edge connectivity and geometric primitives\<close>

text \<open>
  The traversal of the mesh with \<open>Walker\<close> is external to smooth.cpp.  The record \<open>Mesh\<close>
  extends \<open>Manifold\<close> by what the traversals of smooth.cpp observe: the enumerations
  \<open>m.faces()\<close> and \<open>m.halfedges()\<close>; for a walker on a half-edge its \<open>vertex()\<close> and
  \<open>face()\<close> (\<open>None\<close> is \<open>InvalidFaceID\<close>) and the half-edges of \<open>opp()\<close>, \<open>next()\<close>, \<open>prev()\<close>
  and \<open>circulate_vertex_ccw()\<close>; and the half-edges a walker visits, until \<open>full_circle()\<close>
  holds, when it starts at \<open>m.walker(v)\<close> and circulates counter-clockwise or clockwise
  around \<open>v\<close>, or starts at \<open>m.walker(f)\<close> and circulates clockwise around \<open>f\<close>.
\<close>

type_synonym FaceID = nat
type_synonym HalfEdgeID = nat

record Mesh = Manifold +
  faces :: "FaceID list"
  halfedges :: "HalfEdgeID list"
  he_vertex :: "HalfEdgeID \<Rightarrow> VertexID"
  he_face :: "HalfEdgeID \<Rightarrow> FaceID option"
  he_opp :: "HalfEdgeID \<Rightarrow> HalfEdgeID"
  he_next :: "HalfEdgeID \<Rightarrow> HalfEdgeID"
  he_prev :: "HalfEdgeID \<Rightarrow> HalfEdgeID"
  he_ccw :: "HalfEdgeID \<Rightarrow> HalfEdgeID"
  vertex_circ_ccw :: "VertexID \<Rightarrow> HalfEdgeID list"
  vertex_circ_cw :: "VertexID \<Rightarrow> HalfEdgeID list"
  face_circ_cw :: "FaceID \<Rightarrow> HalfEdgeID list"

text \<open>
  The geometric functions of the mesh library that smooth.cpp calls and does not define:
  \<open>normal(m, f)\<close>, \<open>centre(m, f)\<close>, \<open>area(m, f)\<close> and \<open>length(m, h)\<close>.  They read the
  positions of the mesh and are parameters of the model.
\<close>

record Geometry =
  g_normal :: "positions \<Rightarrow> FaceID \<Rightarrow> Vec3d"
  g_centre :: "positions \<Rightarrow> FaceID \<Rightarrow> Vec3d"
  g_area :: "positions \<Rightarrow> FaceID \<Rightarrow> double"
  g_length :: "positions \<Rightarrow> HalfEdgeID \<Rightarrow> double"

text \<open>
  Modelled from the spec: the vector library CGLA is not part of smooth.cpp.  \<open>length\<close>
  is the square root of the squared length, \<open>normalize\<close> divides a vector by its length,
  and \<open>cond_normalize\<close> is the safe normalize of the spec, which returns the zero vector
  when the squared length is not positive.
\<close>

definition vlength :: "Vec3d \<Rightarrow> double" where
  "vlength v = dsqrt (sqr_length v)"

definition normalize :: "Vec3d \<Rightarrow> Vec3d" where
  "normalize v = vdiv v (vlength v)"

definition cond_normalize :: "Vec3d \<Rightarrow> Vec3d" where
  "cond_normalize v =
     (let sql = sqr_length v
      in if dless (Fin 0) sql then vdiv v (dsqrt sql) else vzero)"

text \<open>A vector times a scalar, \<open>v * k\<close>.\<close>

fun vmuls :: "Vec3d \<Rightarrow> double \<Rightarrow> Vec3d" where
  "vmuls (Vec3d x y z) k = Vec3d (dmul x k) (dmul y k) (dmul z k)"

definition sqr :: "double \<Rightarrow> double" where
  "sqr x = dmul x x"

definition M_PI :: double where
  "M_PI = Fin pi"

subsection \<open>face_neighbourhood and the normal filters\<close>

text \<open>
  The body of the inner loop of \<open>face_neighbourhood\<close> for the walker \<open>wv\<close>; the state is
  the attribute vector \<open>touched\<close> and the vector \<open>nbrs\<close>.
\<close>

definition visit_face ::
  "Mesh \<Rightarrow> FaceID \<Rightarrow> HalfEdgeID \<Rightarrow> (FaceID \<Rightarrow> int) \<times> FaceID list
    \<Rightarrow> (FaceID \<Rightarrow> int) \<times> FaceID list" where
  "visit_face m f wv st =
     (case st of (touched, nbrs) \<Rightarrow>
        (case he_face m wv of
           None \<Rightarrow> (touched, nbrs)
         | Some fn \<Rightarrow>
             if touched fn \<noteq> touched f then (touched(fn := 1), nbrs @ [fn])
             else (touched, nbrs)))"

definition face_neighbourhood :: "Mesh \<Rightarrow> FaceID \<Rightarrow> FaceID list \<Rightarrow> FaceID list" where
  "face_neighbourhood m f nbrs =
     snd (fold (\<lambda>wf st. fold (visit_face m f) (vertex_circ_cw m (he_vertex m wf)) st)
            (face_circ_cw m f)
            ((\<lambda>x. - 1)(f := 1), nbrs @ [f]))"

text \<open>
  The weight of one neighbour in \<open>fvm_filtered_normal\<close>:
  \<open>w = exp((dot(median_norm, n) - 1) / sigma)\<close>, set to zero below \<open>1e-2\<close>.
\<close>

definition fvm_weight :: "Vec3d \<Rightarrow> Vec3d \<Rightarrow> double" where
  "fvm_weight median_norm n =
     (let w = dexp (ddiv (dsub (dot median_norm n) (Fin 1)) (Fin 0.1))
      in if dless w (Fin 0.01) then Fin 0 else w)"

text \<open>
  The first loop of \<open>fvm_filtered_normal\<close>.  The state is the vector \<open>normals\<close>,
  \<open>min_dist_sum\<close> and \<open>median\<close> (\<open>None\<close> for \<open>-1\<close>).  Pass \<open>i\<close> stores \<open>normals[i]\<close> and then
  sums over all \<open>j\<close>, also over the entries \<open>j > i\<close> that no pass has stored yet.
\<close>

definition fvm_scan_step ::
  "Geometry \<Rightarrow> positions \<Rightarrow> FaceID list \<Rightarrow> nat \<Rightarrow> Vec3d list \<times> double \<times> nat option
    \<Rightarrow> Vec3d list \<times> double \<times> nat option" where
  "fvm_scan_step G live nbrs i st =
     (case st of (normals, min_dist_sum, median) \<Rightarrow>
        (let normals' = normals[i := g_normal G live (nbrs ! i)];
             dist_sum = fold (\<lambda>j d. dadd d (dsub (Fin 1) (dot (normals' ! i) (normals' ! j))))
                          [0..<length nbrs] (Fin 0)
         in if dless dist_sum min_dist_sum then (normals', dist_sum, Some i)
            else (normals', min_dist_sum, median)))"

datatype fvm_error = AssertionFailed

text \<open>
  \<open>fresh i\<close> is the content of entry \<open>i\<close> of the vector \<open>normals(nbrs.size())\<close> right
  after its construction, which the default constructor of \<open>Vec3d\<close> decides.  With
  \<open>median == -1\<close> the \<open>assert\<close> fails.
\<close>

definition fvm_filtered_normal ::
  "Geometry \<Rightarrow> Mesh \<Rightarrow> positions \<Rightarrow> (nat \<Rightarrow> Vec3d) \<Rightarrow> FaceID \<Rightarrow> fvm_error + Vec3d" where
  "fvm_filtered_normal G m live fresh f =
     (let nbrs = face_neighbourhood m f [];
          (normals, min_dist_sum, median) =
             fold (fvm_scan_step G live nbrs) [0..<length nbrs]
               (map fresh [0..<length nbrs], Fin (10 ^ 32), None)
      in case median of
           None \<Rightarrow> Inl AssertionFailed
         | Some md \<Rightarrow>
             (let median_norm = normals ! md;
                  avg_norm = fold (\<lambda>i a. vadd a (smul (fvm_weight median_norm (normals ! i))
                                                     (normals ! i)))
                               [0..<length nbrs] vzero
              in Inr (normalize avg_norm)))"

definition bilateral_filtered_normal ::
  "Geometry \<Rightarrow> Mesh \<Rightarrow> positions \<Rightarrow> FaceID \<Rightarrow> double \<Rightarrow> Vec3d" where
  "bilateral_filtered_normal G m live f avg_len =
     (let nbrs = face_neighbourhood m f [];
          p0 = g_centre G live f;
          n0 = g_normal G live f;
          fn = fold (\<lambda>nbr fn.
                 let n = g_normal G live nbr;
                     p = g_centre G live nbr;
                     w_a = dexp (ddiv (dneg (dacos (dmax (Fin (- 1)) (dmin (Fin 1) (dot n n0)))))
                                  (ddiv M_PI (Fin 32)));
                     w_s = dexp (ddiv (dneg (vlength (vsub p p0))) avg_len)
                 in vadd fn (smul (dmul (dmul (g_area G live nbr) w_a) w_s) n))
               nbrs vzero
      in normalize fn)"

subsection \<open>anisotropic_smooth\<close>

datatype NormalSmoothMethod = FVM_NORMAL_SMOOTH | BILATERAL_NORMAL_SMOOTH

text \<open>
  The loop over \<open>m.halfedges()\<close> that sums \<open>length(m, hid)\<close>.  Next to the sum it counts
  the calls of \<open>length(m, hid)\<close>: this loop is the only place of \<open>anisotropic_smooth\<close> that
  reads half-edge lengths, so the count tells how often the sum is computed.
\<close>

definition half_edge_length_sum :: "Geometry \<Rightarrow> Mesh \<Rightarrow> positions \<Rightarrow> double \<times> nat" where
  "half_edge_length_sum G m live =
     fold (\<lambda>hid (avg_len, calls). (dadd avg_len (g_length G live hid), calls + 1))
       (halfedges m) (Fin 0, 0)"

text \<open>
  The loop over \<open>m.faces()\<close> that fills \<open>filtered_norms\<close>.  An entry that the loop does
  not store holds a default-constructed \<open>Vec3d\<close>.
\<close>

definition filter_normals ::
  "Geometry \<Rightarrow> Mesh \<Rightarrow> positions \<Rightarrow> (nat \<Rightarrow> Vec3d) \<Rightarrow> NormalSmoothMethod \<Rightarrow> double
    \<Rightarrow> fvm_error + (FaceID \<Rightarrow> Vec3d)" where
  "filter_normals G m live fresh nsm avg_len =
     fold (\<lambda>f r.
        case r of
          Inl e \<Rightarrow> Inl e
        | Inr filtered_norms \<Rightarrow>
            (if nsm = BILATERAL_NORMAL_SMOOTH
             then Inr (filtered_norms(f := bilateral_filtered_normal G m live f avg_len))
             else (case fvm_filtered_normal G m live fresh f of
                     Inl e \<Rightarrow> Inl e
                   | Inr n \<Rightarrow> Inr (filtered_norms(f := n)))))
       (faces m) (Inr fresh)"

text \<open>
  The body of the loop over the half-edges inside a sub-iteration: the contribution
  \<open>m.pos(v) + 0.5 * n * dot(n, dir)\<close> of a half-edge with a valid face is added to
  \<open>vertex_positions[v]\<close>, and \<open>count[v]\<close> goes up by one.  \<open>count[v]\<close> is an \<open>int\<close> that
  grows to at most 100 times the number of half-edges pointing to \<open>v\<close>; it is a natural
  number here.
\<close>

definition contribution :: "Mesh \<Rightarrow> positions \<Rightarrow> (FaceID \<Rightarrow> Vec3d) \<Rightarrow> HalfEdgeID \<Rightarrow> FaceID \<Rightarrow> Vec3d" where
  "contribution m live filtered_norms hid f =
     (let v = he_vertex m hid;
          dir = vsub (live (he_vertex m (he_opp m hid))) (live v);
          n = filtered_norms f
      in vadd (live v) (vmuls (smul (Fin 0.5) n) (dot n dir)))"

definition accumulate_halfedge ::
  "Mesh \<Rightarrow> positions \<Rightarrow> (FaceID \<Rightarrow> Vec3d) \<Rightarrow> HalfEdgeID \<Rightarrow> positions \<times> (VertexID \<Rightarrow> nat)
    \<Rightarrow> positions \<times> (VertexID \<Rightarrow> nat)" where
  "accumulate_halfedge m live filtered_norms hid st =
     (case st of (vertex_positions, counts) \<Rightarrow>
        (case he_face m hid of
           None \<Rightarrow> (vertex_positions, counts)
         | Some f \<Rightarrow>
             (let v = he_vertex m hid
              in (vertex_positions(v := vadd (vertex_positions v)
                                          (contribution m live filtered_norms hid f)),
                  counts(v := counts v + 1)))))"

text \<open>
  The body of the loop over the vertices inside a sub-iteration; the state is the position
  buffer of the mesh and \<open>max_move\<close>.
\<close>

definition move_vertex ::
  "positions \<Rightarrow> (VertexID \<Rightarrow> nat) \<Rightarrow> VertexID \<Rightarrow> positions \<times> double \<Rightarrow> positions \<times> double" where
  "move_vertex vertex_positions counts v st =
     (case st of (live, max_move) \<Rightarrow>
        (let npos = vdiv (vertex_positions v) (Fin (real (counts v)));
             move = sqr_length (vsub npos (live v))
         in (live(v := npos), if dless max_move move then move else max_move)))"

text \<open>
  One sub-iteration.  The state carried from one sub-iteration to the next is the position
  buffer together with \<open>vertex_positions\<close> and \<open>count\<close>; the result also has \<open>max_move\<close>.
\<close>

type_synonym relax_state = "positions \<times> positions \<times> (VertexID \<Rightarrow> nat)"

definition sub_iteration ::
  "Mesh \<Rightarrow> (FaceID \<Rightarrow> Vec3d) \<Rightarrow> relax_state \<Rightarrow> relax_state \<times> double" where
  "sub_iteration m filtered_norms st =
     (case st of (live, vertex_positions, counts) \<Rightarrow>
        (let (vertex_positions', counts') =
               fold (accumulate_halfedge m live filtered_norms) (halfedges m)
                 (vertex_positions, counts);
             (live', max_move) =
               fold (move_vertex vertex_positions' counts') (vertices m) (live, Fin 0)
         in ((live', vertex_positions', counts'), max_move)))"

text \<open>
  The loop \<open>for(int sub_iter=0;sub_iter<100;++sub_iter)\<close> with its \<open>break\<close>.  The line
  written to \<open>cout\<close> before the \<open>break\<close> is not part of the model.
\<close>

function sub_iter_loop ::
  "Mesh \<Rightarrow> (FaceID \<Rightarrow> Vec3d) \<Rightarrow> double \<Rightarrow> nat \<Rightarrow> relax_state \<Rightarrow> relax_state" where
  "sub_iter_loop m filtered_norms avg_len sub_iter st =
     (if sub_iter < 100 then
        (let (st', max_move) = sub_iteration m filtered_norms st
         in if dless max_move (sqr (dmul (Fin (1 / 10 ^ 8)) avg_len)) then st'
            else sub_iter_loop m filtered_norms avg_len (sub_iter + 1) st')
      else st)"
  by pat_completeness auto
termination
  by (relation "measure (\<lambda>(m, filtered_norms, avg_len, sub_iter, st). 100 - sub_iter)") auto

declare sub_iter_loop.simps [simp del]

text \<open>
  The body of the outer loop: the filtered normals, the fresh \<open>vertex_positions\<close> (all
  \<open>Vec3d(0)\<close>) and \<open>count\<close> (all \<open>0\<close>), and the sub-iterations.
\<close>

definition outer_iteration ::
  "Geometry \<Rightarrow> Mesh \<Rightarrow> (nat \<Rightarrow> Vec3d) \<Rightarrow> NormalSmoothMethod \<Rightarrow> double \<Rightarrow> positions
    \<Rightarrow> fvm_error + positions" where
  "outer_iteration G m fresh nsm avg_len live =
     (case filter_normals G m live fresh nsm avg_len of
        Inl e \<Rightarrow> Inl e
      | Inr filtered_norms \<Rightarrow>
          Inr (fst (sub_iter_loop m filtered_norms avg_len 0 (live, (\<lambda>v. vzero), (\<lambda>v. 0)))))"

fun outer_loop ::
  "Geometry \<Rightarrow> Mesh \<Rightarrow> (nat \<Rightarrow> Vec3d) \<Rightarrow> NormalSmoothMethod \<Rightarrow> double \<Rightarrow> nat \<Rightarrow> positions
    \<Rightarrow> fvm_error + positions" where
  "outer_loop G m fresh nsm avg_len 0 live = Inr live"
| "outer_loop G m fresh nsm avg_len (Suc k) live =
     (case outer_iteration G m fresh nsm avg_len live of
        Inl e \<Rightarrow> Inl e
      | Inr live' \<Rightarrow> outer_loop G m fresh nsm avg_len k live')"

text \<open>
  \<open>anisotropic_smooth\<close>: the result is the position buffer of the mesh and the number of
  calls of \<open>length(m, hid)\<close>.  The outer loop \<open>for(int iter = 0;iter<max_iter; ++iter)\<close>
  runs \<open>max_iter\<close> times, and not at all for a negative \<open>max_iter\<close>.
\<close>

definition anisotropic_smooth ::
  "Geometry \<Rightarrow> Mesh \<Rightarrow> positions \<Rightarrow> (nat \<Rightarrow> Vec3d) \<Rightarrow> int \<Rightarrow> NormalSmoothMethod
    \<Rightarrow> fvm_error + positions \<times> nat" where
  "anisotropic_smooth G m live fresh max_iter nsm =
     (let (sum, calls) = half_edge_length_sum G m live;
          avg_len = ddiv sum (Fin 2)
      in case outer_loop G m fresh nsm avg_len (nat max_iter) live of
           Inl e \<Rightarrow> Inl e
         | Inr live' \<Rightarrow> Inr (live', calls))"

text \<open>
  The state the first sub-iteration of an outer iteration starts from: the positions of
  the mesh, \<open>vertex_positions\<close> all \<open>Vec3d(0)\<close> and \<open>count\<close> all \<open>0\<close>.
\<close>

definition relax_init :: "positions \<Rightarrow> relax_state" where
  "relax_init live = (live, (\<lambda>v. vzero), (\<lambda>v. 0))"

text \<open>The state after \<open>s\<close> sub-iterations that start from \<open>st\<close>.\<close>

definition relax :: "Mesh \<Rightarrow> (FaceID \<Rightarrow> Vec3d) \<Rightarrow> nat \<Rightarrow> relax_state \<Rightarrow> relax_state" where
  "relax m filtered_norms s st = ((\<lambda>st. fst (sub_iteration m filtered_norms st)) ^^ s) st"

text \<open>The half-edges with a valid face that point to \<open>v\<close>, in mesh order.\<close>

definition incoming :: "Mesh \<Rightarrow> VertexID \<Rightarrow> HalfEdgeID list" where
  "incoming m v = filter (\<lambda>hid. he_face m hid \<noteq> None \<and> he_vertex m hid = v) (halfedges m)"

text \<open>The contributions to \<open>v\<close> of one pass over the half-edges, in mesh order.\<close>

definition contributions :: "Mesh \<Rightarrow> positions \<Rightarrow> (FaceID \<Rightarrow> Vec3d) \<Rightarrow> VertexID \<Rightarrow> Vec3d list" where
  "contributions m live filtered_norms v =
     map (\<lambda>hid. contribution m live filtered_norms hid (the (he_face m hid))) (incoming m v)"

text \<open>
  The contributions to \<open>v\<close> of the first \<open>s\<close> sub-iterations, each computed from the
  positions its sub-iteration starts with.
\<close>

definition all_contributions ::
  "Mesh \<Rightarrow> (FaceID \<Rightarrow> Vec3d) \<Rightarrow> relax_state \<Rightarrow> nat \<Rightarrow> VertexID \<Rightarrow> Vec3d list" where
  "all_contributions m filtered_norms st s v =
     concat (map (\<lambda>t. contributions m (fst (relax m filtered_norms t st)) filtered_norms v)
               [0..<s])"

text \<open>The vectors \<open>cs\<close> added to \<open>a\<close> one after the other.\<close>

definition vsum :: "Vec3d list \<Rightarrow> Vec3d \<Rightarrow> Vec3d" where
  "vsum cs a = fold (\<lambda>c a. vadd a c) cs a"

text \<open>The filtered normals of the bilateral filter, which has no failing assertion.\<close>

definition bilateral_norms ::
  "Geometry \<Rightarrow> Mesh \<Rightarrow> positions \<Rightarrow> (nat \<Rightarrow> Vec3d) \<Rightarrow> double \<Rightarrow> FaceID \<Rightarrow> Vec3d" where
  "bilateral_norms G m live fresh avg_len =
     fold (\<lambda>f filtered_norms. filtered_norms(f := bilateral_filtered_normal G m live f avg_len))
       (faces m) fresh"

text \<open>
  At most \<open>n\<close> sub-iterations that start from \<open>st\<close>; the first one whose \<open>max_move\<close> is
  below \<open>threshold\<close> is the last.
\<close>

fun relax_until ::
  "Mesh \<Rightarrow> (FaceID \<Rightarrow> Vec3d) \<Rightarrow> double \<Rightarrow> nat \<Rightarrow> relax_state \<Rightarrow> relax_state" where
  "relax_until m filtered_norms threshold 0 st = st"
| "relax_until m filtered_norms threshold (Suc n) st =
     (case sub_iteration m filtered_norms st of
        (st', max_move) \<Rightarrow>
          if dless max_move threshold then st'
          else relax_until m filtered_norms threshold n st')"

text \<open>
  The filtered normals of the FVM filter, face by face in mesh order up to the first
  failing assertion.  No half-edge length enters.
\<close>

definition fvm_norms ::
  "Geometry \<Rightarrow> Mesh \<Rightarrow> positions \<Rightarrow> (nat \<Rightarrow> Vec3d) \<Rightarrow> fvm_error + (FaceID \<Rightarrow> Vec3d)" where
  "fvm_norms G m live fresh =
     fold (\<lambda>f r.
        case r of
          Inl e \<Rightarrow> Inl e
        | Inr filtered_norms \<Rightarrow>
            (case fvm_filtered_normal G m live fresh f of
               Inl e \<Rightarrow> Inl e
             | Inr n \<Rightarrow> Inr (filtered_norms(f := n))))
       (faces m) (Inr fresh)"

text \<open>\<open>k\<close> rounds of \<open>step\<close>, of which the first that fails is the last.\<close>

fun iterate_result :: "('a \<Rightarrow> 'e + 'a) \<Rightarrow> nat \<Rightarrow> 'a \<Rightarrow> 'e + 'a" where
  "iterate_result step 0 x = Inr x"
| "iterate_result step (Suc k) x =
     (case step x of
        Inl e \<Rightarrow> Inl e
      | Inr y \<Rightarrow> iterate_result step k y)"

subsection \<open>cot_laplacian\<close>

text \<open>
  The weight of one wedge: \<open>d_left\<close>, \<open>d_right\<close>, the clamped \<open>acos\<close> of both, and
  \<open>w = sin(a_left + a_right) / (1e-10 + sin(a_left)*sin(a_right))\<close>.
\<close>

definition wedge_angle :: "Vec3d \<Rightarrow> Vec3d \<Rightarrow> Vec3d \<Rightarrow> double" where
  "wedge_angle nbr vertex corner =
     (let d = dot (cond_normalize (vsub nbr corner)) (cond_normalize (vsub vertex corner))
      in dacos (dmin (Fin 1) (dmax (Fin (- 1)) d)))"

definition cot_weight :: "Vec3d \<Rightarrow> Vec3d \<Rightarrow> Vec3d \<Rightarrow> Vec3d \<Rightarrow> double" where
  "cot_weight vertex nbr left right =
     (let a_left = wedge_angle nbr vertex left;
          a_right = wedge_angle nbr vertex right
      in ddiv (dsin (dadd a_left a_right))
           (dadd (Fin (1 / 10 ^ 10)) (dmul (dsin a_left) (dsin a_right))))"

text \<open>
  The lambda given to \<open>circulate_vertex_ccw\<close>, for the walker \<open>wv\<close>; the state is \<open>p\<close> and
  \<open>w_sum\<close>.
\<close>

definition cot_wedge ::
  "Mesh \<Rightarrow> positions \<Rightarrow> VertexID \<Rightarrow> HalfEdgeID \<Rightarrow> Vec3d \<times> double \<Rightarrow> Vec3d \<times> double" where
  "cot_wedge m live v wv st =
     (case st of (p, w_sum) \<Rightarrow>
        (let nbr = live (he_vertex m wv);
             left = live (he_vertex m (he_next m wv));
             right = live (he_vertex m (he_opp m (he_prev m (he_opp m wv))));
             w = cot_weight (live v) nbr left right
         in (vadd p (smul w nbr), dadd w_sum w)))"

text \<open>The last two statements of \<open>cot_laplacian\<close>, for the accumulated \<open>p\<close> and \<open>w_sum\<close>.\<close>

fun cot_result :: "Vec3d \<Rightarrow> double \<Rightarrow> Vec3d \<Rightarrow> Vec3d" where
  "cot_result (Vec3d p0 p1 p2) w_sum vertex =
     (if dless w_sum (Fin (1 / 10 ^ 20)) \<or> isnan p0 \<or> isnan p1 \<or> isnan p2 then vzero
      else vsub (vdiv (Vec3d p0 p1 p2) w_sum) vertex)"

definition cot_accumulate :: "Mesh \<Rightarrow> positions \<Rightarrow> VertexID \<Rightarrow> Vec3d \<times> double" where
  "cot_accumulate m live v = fold (cot_wedge m live v) (vertex_circ_ccw m v) (vzero, Fin 0)"

definition cot_laplacian :: "Mesh \<Rightarrow> positions \<Rightarrow> VertexID \<Rightarrow> Vec3d" where
  "cot_laplacian m live v =
     (case cot_accumulate m live v of (p, w_sum) \<Rightarrow> cot_result p w_sum (live v))"

text \<open>The weight of the wedge of the walker \<open>wv\<close> around \<open>v\<close>.\<close>

definition wedge_weight :: "Mesh \<Rightarrow> positions \<Rightarrow> VertexID \<Rightarrow> HalfEdgeID \<Rightarrow> double" where
  "wedge_weight m live v wv =
     cot_weight (live v) (live (he_vertex m wv)) (live (he_vertex m (he_next m wv)))
       (live (he_vertex m (he_opp m (he_prev m (he_opp m wv)))))"

text \<open>The numbers \<open>ws\<close> added to \<open>a\<close> one after the other.\<close>

definition dsum :: "double list \<Rightarrow> double \<Rightarrow> double" where
  "dsum ws a = fold (\<lambda>w a. dadd a w) ws a"

fun has_nan :: "Vec3d \<Rightarrow> bool" where
  "has_nan (Vec3d a b c) = (isnan a \<or> isnan b \<or> isnan c)"

subsection \<open>TAL_smoothing\<close>

text \<open>The first loop: \<open>vertex_areas[v]\<close> is the sum of the areas of the valid faces at \<open>v\<close>.\<close>

definition vertex_area :: "Geometry \<Rightarrow> Mesh \<Rightarrow> positions \<Rightarrow> VertexID \<Rightarrow> double" where
  "vertex_area G m live v =
     fold (\<lambda>w a. case he_face m w of None \<Rightarrow> a | Some f \<Rightarrow> dadd a (g_area G live f))
       (vertex_circ_ccw m v) (Fin 0)"

definition vertex_areas :: "Geometry \<Rightarrow> Mesh \<Rightarrow> positions \<Rightarrow> VertexID \<Rightarrow> double" where
  "vertex_areas G m live =
     fold (\<lambda>v areas. areas(v := vertex_area G m live v)) (vertices m) (\<lambda>v. Fin 0)"

text \<open>
  The second loop, for a boundary vertex: the body for the walker \<open>w\<close>, with the state
  \<open>laplacians[v]\<close>, \<open>weight_sum\<close> and \<open>angle_sum\<close>.
\<close>

definition tal_boundary_wedge ::
  "Mesh \<Rightarrow> positions \<Rightarrow> VertexID \<Rightarrow> HalfEdgeID \<Rightarrow> Vec3d \<times> double \<times> double
    \<Rightarrow> Vec3d \<times> double \<times> double" where
  "tal_boundary_wedge m live v w st =
     (case st of (lap, weight_sum, angle_sum) \<Rightarrow>
        (let angle_sum' =
               (case he_face m w of
                  None \<Rightarrow> angle_sum
                | Some f \<Rightarrow>
                    (let vec_a = normalize (vsub (live (he_vertex m w)) (live v));
                         vec_b = normalize (vsub (live (he_vertex m (he_ccw m w))) (live v))
                     in dadd angle_sum
                          (dacos (dmax (Fin (- 1)) (dmin (Fin 1) (dot vec_a vec_b))))))
         in if boundary m (he_vertex m w)
            then (vadd lap (vsub (live (he_vertex m w)) (live v)), dadd weight_sum (Fin 1),
                  angle_sum')
            else (lap, weight_sum, angle_sum')))"

text \<open>The body for the walker \<open>w\<close> at a vertex that is not on the boundary.\<close>

definition tal_interior_wedge ::
  "Mesh \<Rightarrow> positions \<Rightarrow> (VertexID \<Rightarrow> double) \<Rightarrow> VertexID \<Rightarrow> HalfEdgeID \<Rightarrow> Vec3d \<times> double
    \<Rightarrow> Vec3d \<times> double" where
  "tal_interior_wedge m live areas v w st =
     (case st of (lap, weight_sum) \<Rightarrow>
        (let weight = areas (he_vertex m w);
             l = vsub (live (he_vertex m w)) (live v)
         in (vadd lap (smul weight l), dadd weight_sum weight)))"

definition tal_laplacian ::
  "Mesh \<Rightarrow> positions \<Rightarrow> (VertexID \<Rightarrow> double) \<Rightarrow> VertexID \<Rightarrow> Vec3d" where
  "tal_laplacian m live areas v =
     (if boundary m v then
        (case fold (tal_boundary_wedge m live v) (vertex_circ_ccw m v) (vzero, Fin 0, Fin 0) of
           (lap, weight_sum, angle_sum) \<Rightarrow>
             vmuls (vdiv lap weight_sum)
               (dexp (dmul (Fin (- 3)) (sqr (dmax (Fin 0) (dsub M_PI angle_sum))))))
      else
        (case fold (tal_interior_wedge m live areas v) (vertex_circ_ccw m v) (vzero, Fin 0) of
           (lap, weight_sum) \<Rightarrow> vdiv lap weight_sum))"

text \<open>
  One iteration: the areas, the Laplacians of all vertices from the positions the
  iteration starts with, and then \<open>m.pos(v) += w*laplacians[v]\<close> for every vertex.
\<close>

definition tal_iteration :: "Geometry \<Rightarrow> Mesh \<Rightarrow> double \<Rightarrow> positions \<Rightarrow> positions" where
  "tal_iteration G m w live =
     (let areas = vertex_areas G m live;
          laplacians = (\<lambda>v. tal_laplacian m live areas v)
      in fold (\<lambda>v p. p(v := vadd (p v) (smul w (laplacians v)))) (vertices m) live)"

definition TAL_smoothing :: "Geometry \<Rightarrow> Mesh \<Rightarrow> positions \<Rightarrow> double \<Rightarrow> int \<Rightarrow> positions" where
  "TAL_smoothing G m live w max_iter = (tal_iteration G m w ^^ nat max_iter) live"

subsection \<open>Example meshes with their connectivity and geometry\<close>

text \<open>
  The closed tetrahedron with the faces \<open>(0,2,1)\<close>, \<open>(0,1,3)\<close>, \<open>(1,2,3)\<close>, \<open>(0,3,2)\<close>.
  Half-edge \<open>3*f + k\<close> is the \<open>k\<close>-th edge of face \<open>f\<close>; \<open>he_vertex\<close> is the vertex it points
  to.
\<close>

definition tetra_mesh :: Mesh where
  "tetra_mesh =
     \<lparr> vertices = [0, 1, 2, 3],
       boundary = (\<lambda>v. False),
       faces = [0, 1, 2, 3],
       halfedges = [0, 1, 2, 3, 4, 5, 6, 7, 8, 9, 10, 11],
       he_vertex = (\<lambda>h. [2, 1, 0, 1, 3, 0, 2, 3, 1, 3, 2, 0] ! h),
       he_face = (\<lambda>h. if h < 12 then Some (h div 3) else None),
       he_opp = (\<lambda>h. [11, 6, 3, 2, 8, 9, 1, 10, 4, 5, 7, 0] ! h),
       he_next = (\<lambda>h. [1, 2, 0, 4, 5, 3, 7, 8, 6, 10, 11, 9] ! h),
       he_prev = (\<lambda>h. [2, 0, 1, 5, 3, 4, 8, 6, 7, 11, 9, 10] ! h),
       he_ccw = (\<lambda>h. [3, 11, 6, 9, 2, 8, 4, 1, 10, 0, 5, 7] ! h),
       vertex_circ_ccw = (\<lambda>v. [[0, 3, 9], [2, 6, 4], [1, 11, 7], [5, 8, 10]] ! v),
       vertex_circ_cw = (\<lambda>v. [[0, 9, 3], [2, 4, 6], [1, 7, 11], [5, 10, 8]] ! v),
       face_circ_cw = (\<lambda>f. [[0, 2, 1], [3, 5, 4], [6, 8, 7], [9, 11, 10]] ! f) \<rparr>"

definition tetra_corners :: "FaceID \<Rightarrow> VertexID \<times> VertexID \<times> VertexID" where
  "tetra_corners f = [(0, 2, 1), (0, 1, 3), (1, 2, 3), (0, 3, 2)] ! f"

definition tetra_pos :: positions where
  "tetra_pos v =
     [Vec3d (Fin 0) (Fin 0) (Fin 0), Vec3d (Fin 1) (Fin 0) (Fin 0),
      Vec3d (Fin 0) (Fin 1) (Fin 0), Vec3d (Fin 0) (Fin 0) (Fin 1)] ! v"

fun cross :: "Vec3d \<Rightarrow> Vec3d \<Rightarrow> Vec3d" where
  "cross (Vec3d a b c) (Vec3d x y z) =
     Vec3d (dsub (dmul b z) (dmul c y)) (dsub (dmul c x) (dmul a z)) (dsub (dmul a y) (dmul b x))"

text \<open>
  Modelled from the spec: \<open>normal\<close>, \<open>centre\<close>, \<open>area\<close> and \<open>length\<close> belong to the mesh
  library, outside smooth.cpp.  These are the face normal, face centroid, face area and
  edge length of the spec for a mesh of triangles, where \<open>corners f\<close> are the three
  vertices of face \<open>f\<close>.  They are used for the example runs only.
\<close>

definition triangle_geometry ::
  "Mesh \<Rightarrow> (FaceID \<Rightarrow> VertexID \<times> VertexID \<times> VertexID) \<Rightarrow> Geometry" where
  "triangle_geometry m corners =
     \<lparr> g_normal = (\<lambda>live f. case corners f of (a, b, c) \<Rightarrow>
                   cond_normalize (cross (vsub (live b) (live a)) (vsub (live c) (live a)))),
       g_centre = (\<lambda>live f. case corners f of (a, b, c) \<Rightarrow>
                   vdiv (vadd (vadd (live a) (live b)) (live c)) (Fin 3)),
       g_area = (\<lambda>live f. case corners f of (a, b, c) \<Rightarrow>
                   dmul (Fin 0.5)
                     (vlength (cross (vsub (live b) (live a)) (vsub (live c) (live a))))),
       g_length = (\<lambda>live h. vlength (vsub (live (he_vertex m h))
                                        (live (he_vertex m (he_opp m h))))) \<rparr>"

definition tetra_geometry :: Geometry where
  "tetra_geometry = triangle_geometry tetra_mesh tetra_corners"

text \<open>The tetrahedron with all four vertices in one point: every face has area zero.\<close>

definition collapsed_pos :: positions where
  "collapsed_pos v = Vec3d (Fin 0) (Fin 0) (Fin 0)"

text \<open>
  The tetrahedron flattened onto a line parallel to the y-axis, at the distance \<open>x\<close> from
  the origin: vertex 0 lies between the vertices 1 and 2, and vertex 3 lies on vertex 0.
  All four faces have area zero.
\<close>

definition line_pos :: "real \<Rightarrow> positions" where
  "line_pos x v =
     [Vec3d (Fin x) (Fin 0) (Fin 0), Vec3d (Fin x) (Fin (- 2)) (Fin 0),
      Vec3d (Fin x) (Fin 1) (Fin 0), Vec3d (Fin x) (Fin 0) (Fin 0)] ! v"

definition far :: real where
  "far = 10 ^ 300"

text \<open>The same, with a NaN coordinate in vertex 2.\<close>

definition nan_pos :: positions where
  "nan_pos v =
     [Vec3d (Fin 0) (Fin 0) (Fin 0), Vec3d (Fin 0) (Fin (- 2)) (Fin 0),
      Vec3d NaN (Fin 1) (Fin 0), Vec3d (Fin 0) (Fin 0) (Fin 0)] ! v"

text \<open>
  A patch of two triangles, \<open>(0,1,2)\<close> and \<open>(0,2,3)\<close>, with four boundary vertices.  The
  half-edges 0 to 5 are the edges of the two faces, the half-edges 6 to 9 run along the
  boundary and have no face; the walker of a vertex starts on its boundary half-edge.
\<close>

definition quad_mesh :: Mesh where
  "quad_mesh =
     \<lparr> vertices = [0, 1, 2, 3],
       boundary = (\<lambda>v. True),
       faces = [0, 1],
       halfedges = [0, 1, 2, 3, 4, 5, 6, 7, 8, 9],
       he_vertex = (\<lambda>h. [1, 2, 0, 2, 3, 0, 0, 1, 2, 3] ! h),
       he_face = (\<lambda>h. if h < 3 then Some 0 else if h < 6 then Some 1 else None),
       he_opp = (\<lambda>h. [6, 7, 3, 2, 8, 9, 0, 1, 4, 5] ! h),
       he_next = (\<lambda>h. [1, 2, 0, 4, 5, 3, 9, 6, 7, 8] ! h),
       he_prev = (\<lambda>h. [2, 0, 1, 5, 3, 4, 7, 8, 9, 6] ! h),
       he_ccw = (\<lambda>h. [3, 6, 7, 9, 2, 8, 1, 4, 5, 0] ! h),
       vertex_circ_ccw = (\<lambda>v. [[9, 0, 3], [6, 1], [7, 4, 2], [8, 5]] ! v),
       vertex_circ_cw = (\<lambda>v. [[9, 3, 0], [6, 1], [7, 2, 4], [8, 5]] ! v),
       face_circ_cw = (\<lambda>f. [[0, 2, 1], [3, 5, 4]] ! f) \<rparr>"

definition quad_corners :: "FaceID \<Rightarrow> VertexID \<times> VertexID \<times> VertexID" where
  "quad_corners f = [(0, 1, 2), (0, 2, 3)] ! f"

text \<open>
  Positions for this mesh that make it a dart: vertex 0 is the reflex corner, vertex 2 the
  tip, and both faces have the area 1050.
\<close>

definition kite_pos :: positions where
  "kite_pos v =
     [Vec3d (Fin 0) (Fin 0) (Fin 0), Vec3d (Fin (- 21)) (Fin 28) (Fin 0),
      Vec3d (Fin 75) (Fin 0) (Fin 0), Vec3d (Fin (- 21)) (Fin (- 28)) (Fin 0)] ! v"

definition quad_geometry :: Geometry where
  "quad_geometry = triangle_geometry quad_mesh quad_corners"

section \<open>Properties of batch_vertices\<close>

lemma batch_loop_length:
  "batch_loop bnd bs vs cnt ids = Inr (cnt', ids') \<Longrightarrow> length ids' = length ids"
  by (induction vs arbitrary: cnt ids) (auto simp: Let_def split: if_splits)

lemma mset_concat_append_at:
  "i < length ids \<Longrightarrow>
   mset (concat (ids[i := ids ! i @ [v]])) = add_mset v (mset (concat ids))"
proof (induction ids arbitrary: i)
  case Nil
  then show ?case by simp
next
  case (Cons a ids)
  then show ?case by (cases i) auto
qed

lemma batch_loop_mset:
  "batch_loop bnd bs vs cnt ids = Inr (cnt', ids') \<Longrightarrow> length ids = CORES \<Longrightarrow>
   mset (concat ids') = mset (concat ids) + mset (filter (\<lambda>v. \<not> bnd v) vs)"
proof (induction vs arbitrary: cnt ids)
  case Nil
  then show ?case by simp
next
  case (Cons v vs)
  show ?case
  proof (cases "bnd v")
    case True
    with Cons show ?thesis by simp
  next
    case False
    let ?i = "(cnt div bs) mod CORES"
    from Cons.prems False
    have run: "batch_loop bnd bs vs (cnt + 1) (ids[?i := ids ! ?i @ [v]]) = Inr (cnt', ids')"
      by (auto simp: Let_def split: if_splits)
    have i: "?i < length ids"
      using Cons.prems(2) by (simp add: CORES_def)
    have "mset (concat ids') =
          mset (concat (ids[?i := ids ! ?i @ [v]])) + mset (filter (\<lambda>v. \<not> bnd v) vs)"
      using Cons.IH [OF run] Cons.prems(2) by simp
    with i False show ?thesis
      by (simp add: mset_concat_append_at)
  qed
qed

lemma batch_vertices_mset:
  assumes "batch_vertices m = Inr bs"
  shows "length bs = CORES" and "mset (concat bs) = mset (interior m)"
proof -
  from assms obtain cnt where
    run: "batch_loop (boundary m) (no_vertices m div CORES) (vertices m) 0
            (replicate CORES []) = Inr (cnt, bs)"
    by (auto simp: batch_vertices_def Let_def split: sum.splits)
  from batch_loop_length [OF run] show "length bs = CORES" by simp
  from batch_loop_mset [OF run] show "mset (concat bs) = mset (interior m)"
    by (simp add: interior_def)
qed

lemma distinct_concat_nth_disjoint:
  "distinct (concat xs) \<Longrightarrow> i < length xs \<Longrightarrow> j < length xs \<Longrightarrow> i \<noteq> j \<Longrightarrow>
   set (xs ! i) \<inter> set (xs ! j) = {}"
proof (induction xs arbitrary: i j)
  case Nil
  then show ?case by simp
next
  case (Cons a xs)
  have disj: "set a \<inter> set (xs ! k) = {}" if "k < length xs" for k
    using Cons.prems(1) that by (fastforce dest: nth_mem)
  show ?case
  proof (cases i)
    case 0
    with Cons.prems obtain j' where "j = Suc j'" "j' < length xs"
      by (cases j) auto
    with 0 disj show ?thesis by simp
  next
    case (Suc i')
    show ?thesis
    proof (cases j)
      case 0
      with Suc Cons.prems disj [of i'] show ?thesis by auto
    next
      case (Suc j')
      with \<open>i = Suc i'\<close> Cons.prems Cons.IH [of i' j'] show ?thesis by simp
    qed
  qed
qed

lemma batch_vertices_partition:
  assumes ret: "batch_vertices m = Inr bs" and dist: "distinct (vertices m)"
  shows "length bs = CORES"
    and "\<And>v. (\<exists>i<CORES. v \<in> set (bs ! i)) \<longleftrightarrow> v \<in> set (vertices m) \<and> \<not> boundary m v"
    and "\<And>i j. i < CORES \<Longrightarrow> j < CORES \<Longrightarrow> i \<noteq> j \<Longrightarrow> set (bs ! i) \<inter> set (bs ! j) = {}"
    and "\<And>i. i < CORES \<Longrightarrow> distinct (bs ! i)"
proof -
  note len = batch_vertices_mset(1) [OF ret]
  note ms = batch_vertices_mset(2) [OF ret]
  show "length bs = CORES" by (rule len)
  have "set (concat bs) = set (interior m)"
    using ms by (metis set_mset_mset)
  then have "(\<Union>b\<in>set bs. set b) = {v \<in> set (vertices m). \<not> boundary m v}"
    by (simp add: interior_def)
  then have "(\<exists>b\<in>set bs. v \<in> set b) \<longleftrightarrow> v \<in> set (vertices m) \<and> \<not> boundary m v" for v
    by blast
  moreover have "(\<exists>b\<in>set bs. v \<in> set b) \<longleftrightarrow> (\<exists>i<CORES. v \<in> set (bs ! i))" for v
    using len by (metis in_set_conv_nth)
  ultimately show "(\<exists>i<CORES. v \<in> set (bs ! i)) \<longleftrightarrow> v \<in> set (vertices m) \<and> \<not> boundary m v" for v
    by simp
  have "distinct (interior m)"
    using dist by (simp add: interior_def)
  then have dc: "distinct (concat bs)"
    using mset_eq_imp_distinct_iff [OF ms] by simp
  show "set (bs ! i) \<inter> set (bs ! j) = {}" if "i < CORES" "j < CORES" "i \<noteq> j" for i j
    using distinct_concat_nth_disjoint [OF dc, of i j] that len by simp
  show "distinct (bs ! i)" if "i < CORES" for i
    using dc that len by (simp add: distinct_concat_iff)
qed

text \<open>With a zero \<open>batch_size\<close> the first non-boundary vertex divides by zero.\<close>

lemma batch_loop_zero:
  "cnt < INT_MAX \<Longrightarrow>
   batch_loop bnd 0 vs cnt ids =
     (if filter (\<lambda>v. \<not> bnd v) vs = [] then Inr (cnt, ids) else Inl DivisionByZero)"
  by (induction vs) auto

text \<open>With a positive \<open>batch_size\<close> no division by zero happens.\<close>

lemma batch_loop_pos:
  "0 < bs \<Longrightarrow> batch_loop bnd bs vs cnt ids \<noteq> Inl DivisionByZero"
  by (induction vs arbitrary: cnt ids) (auto simp: Let_def)

text \<open>The loop returns when the counter stays within \<open>int\<close>.\<close>

lemma batch_loop_returns:
  "0 < bs \<Longrightarrow> cnt + length (filter (\<lambda>v. \<not> bnd v) vs) \<le> INT_MAX \<Longrightarrow>
   \<exists>r. batch_loop bnd bs vs cnt ids = Inr r"
proof (induction vs arbitrary: cnt ids)
  case Nil
  then show ?case by simp
next
  case (Cons v vs)
  show ?case
  proof (cases "bnd v")
    case True
    with Cons show ?thesis by simp
  next
    case False
    with Cons.prems have "cnt \<noteq> INT_MAX" and "bs \<noteq> 0"
      and "cnt + 1 + length (filter (\<lambda>v. \<not> bnd v) vs) \<le> INT_MAX"
      by auto
    with Cons.IH [of "cnt + 1"] Cons.prems(1) False show ?thesis
      by (simp add: Let_def)
  qed
qed

lemma batch_vertices_returns:
  assumes "CORES \<le> no_vertices m" and "length (interior m) \<le> INT_MAX"
  shows "\<exists>bs. batch_vertices m = Inr bs"
proof -
  have "0 < no_vertices m div CORES"
    using assms(1) by (simp add: CORES_def div_greater_zero_iff)
  from batch_loop_returns [OF this, of 0 "boundary m" "vertices m" "replicate CORES []"] assms(2)
  show ?thesis
    by (auto simp: batch_vertices_def Let_def interior_def split: sum.splits)
qed

text \<open>
  Claim C1: for every mesh, the batches of \<open>batch_vertices\<close> partition the non-boundary
  vertices.  Whenever \<open>batch_vertices\<close> returns, they do (\<open>batch_vertices_partition\<close>),
  and it returns on every mesh of at least \<open>CORES\<close> vertices (\<open>batch_vertices_returns\<close>).
  On the closed tetrahedron, whose four vertices are all non-boundary, \<open>batch_size\<close> is
  \<open>4 / 8 = 0\<close> and the first vertex divides by zero: no batches are produced.
\<close>

theorem batch_vertices_tetrahedron:
  "no_vertices tetrahedron = 4 \<and> interior tetrahedron = [0, 1, 2, 3] \<and>
   batch_vertices tetrahedron = Inl DivisionByZero"
proof (intro conjI)
  show "no_vertices tetrahedron = 4"
    by (simp add: no_vertices_def tetrahedron_def)
  show "interior tetrahedron = [0, 1, 2, 3]"
    by (simp add: interior_def tetrahedron_def)
  show "batch_vertices tetrahedron = Inl DivisionByZero"
    by (simp add: batch_vertices_def no_vertices_def tetrahedron_def CORES_def INT_MAX_def)
qed

text \<open>
  Claim C10, as amended: the division \<open>cnt++ / batch_size\<close> divides by zero exactly when
  the mesh has fewer than \<open>CORES\<close> vertices and at least one non-boundary vertex; on a
  mesh without non-boundary vertices the division is never evaluated.
\<close>

theorem batch_vertices_division_by_zero_iff:
  "batch_vertices m = Inl DivisionByZero \<longleftrightarrow> no_vertices m < CORES \<and> interior m \<noteq> []"
proof (cases "no_vertices m < CORES")
  case True
  then have "no_vertices m div CORES = 0" by simp
  moreover have "(0::nat) < INT_MAX" by (simp add: INT_MAX_def)
  ultimately show ?thesis
    using True by (simp add: batch_vertices_def batch_loop_zero interior_def)
next
  case False
  then have "0 < no_vertices m div CORES"
    by (simp add: CORES_def div_greater_zero_iff)
  from batch_loop_pos [OF this, of "boundary m" "vertices m" 0 "replicate CORES []"] False
  show ?thesis
    by (auto simp: batch_vertices_def Let_def split: sum.splits)
qed

theorem batch_vertices_division_by_zero_iff_witness:
  "CORES \<le> no_vertices cube \<and> interior cube \<noteq> [] \<and> batch_vertices cube \<noteq> Inl DivisionByZero"
  using batch_vertices_division_by_zero_iff [of cube]
  by (simp add: no_vertices_def interior_def cube_def CORES_def)

text \<open>
  Claim C10 as stated fails on the single triangle: it has fewer than \<open>CORES\<close> vertices,
  all of them on the boundary, and \<open>batch_vertices\<close> returns eight empty batches without
  ever dividing.
\<close>

theorem batch_vertices_single_triangle:
  "no_vertices single_triangle < CORES \<and>
   batch_vertices single_triangle = Inr [[], [], [], [], [], [], [], []]"
proof (intro conjI)
  show "no_vertices single_triangle < CORES"
    by (simp add: no_vertices_def single_triangle_def CORES_def)
  show "batch_vertices single_triangle = Inr [[], [], [], [], [], [], [], []]"
    by code_simp
qed


section \<open>Properties of laplacian_smooth and taubin_smooth\<close>

lemma DBL_MAX_big: "1000 \<le> DBL_MAX"
  by (simp add: DBL_MAX_def)

lemma dbl_small: "\<bar>r\<bar> \<le> 1000 \<Longrightarrow> dbl r = Fin r"
  using DBL_MAX_big by (auto simp: dbl_def)


lemma replicate_CORES: "replicate CORES x = [x, x, x, x, x, x, x, x]"
  by (simp add: CORES_def numeral_eq_Suc)

lemma batch_vertices_grid3: "batch_vertices grid3 = Inr [[4], [], [], [], [], [], [], []]"
  by (simp add: batch_vertices_def no_vertices_def grid3_def replicate_CORES INT_MAX_def)
    (simp add: CORES_def)

lemma upt_0_2: "[0..<2] = [0, Suc 0]"
  by (simp add: numeral_2_eq_2)

lemma dadd_commute: "dadd a b = dadd b a"
  by (cases a; cases b) (simp_all add: add.commute)

lemma vadd_commute: "vadd u w = vadd w u"
  by (cases u; cases w) (simp add: dadd_commute)

lemma fold_guarded_update:
  "fold (\<lambda>v np. if \<not> bnd v then np(v := g v) else np) vs np =
   (\<lambda>v. if v \<in> set vs \<and> \<not> bnd v then g v else np v)"
  by (induction vs arbitrary: np) (auto simp: fun_eq_iff)

lemma taubin_sub_iteration_eq:
  "taubin_sub_iteration lap m iter (live, new_pos) =
     (\<lambda>v. if v \<in> set (vertices m) \<and> \<not> boundary m v
          then vadd (live v) (smul (taubin_step iter) (lap live v))
          else new_pos v,
      live)"
proof -
  have "vadd (smul s (lap live v)) (live v) = vadd (live v) (smul s (lap live v))" for s v
    by (rule vadd_commute)
  then show ?thesis
    by (simp add: taubin_sub_iteration_def fold_guarded_update fun_eq_iff)
qed

lemma taubin_loop_fold:
  "iter \<le> limit \<Longrightarrow>
   taubin_loop lap m limit iter st = fold (taubin_sub_iteration lap m) [iter..<limit] st"
proof (induction lap m limit iter st rule: taubin_loop.induct)
  case (1 lap m limit iter st)
  show ?case
  proof (cases "iter < limit")
    case True
    with "1.IH" show ?thesis
      by (simp add: taubin_loop.simps [of lap m limit iter st] upt_conv_Cons)
  next
    case False
    with "1.prems" have "iter = limit" by simp
    then show ?thesis
      by (simp add: taubin_loop.simps [of lap m limit limit st])
  qed
qed

text \<open>
  Claim C4: \<open>taubin_smooth\<close> runs the sub-iterations with the indices \<open>0, 1, ...,
  2*max_iter - 1\<close> in this order, that is \<open>2*max_iter\<close> of them; the sub-iteration with
  index \<open>iter\<close> writes \<open>pos(v) + s * laplacian(m, v)\<close> into \<open>new_pos[v]\<close> for every
  non-boundary vertex \<open>v\<close>, with \<open>s = 0.5\<close> for an even and \<open>s = -0.52\<close> for an odd index,
  and then swaps the buffers: the written buffer becomes the live one, the old live buffer
  the scratch one.  The bounds on \<open>max_iter\<close> keep \<open>2*max_iter\<close> within \<open>int\<close>.
\<close>

theorem taubin_smooth_sub_iterations:
  assumes "- 1073741824 \<le> max_iter" and "max_iter \<le> 1073741823"
  shows "taubin_smooth lap m live max_iter =
           Inr (fst (fold (taubin_sub_iteration lap m) [0..<nat (2 * max_iter)] (live, live)))
       \<and> (\<forall>iter pos new_pos.
            taubin_sub_iteration lap m iter (pos, new_pos) =
              (\<lambda>v. if v \<in> set (vertices m) \<and> \<not> boundary m v
                   then vadd (pos v)
                          (smul (if even iter then Fin 0.5 else Fin (- 0.52)) (lap pos v))
                   else new_pos v,
               pos))"
proof (intro conjI allI)
  from assms show "taubin_smooth lap m live max_iter =
      Inr (fst (fold (taubin_sub_iteration lap m) [0..<nat (2 * max_iter)] (live, live)))"
    by (simp add: taubin_smooth_def taubin_loop_fold)
next
  fix iter pos new_pos
  show "taubin_sub_iteration lap m iter (pos, new_pos) =
          (\<lambda>v. if v \<in> set (vertices m) \<and> \<not> boundary m v
               then vadd (pos v)
                      (smul (if even iter then Fin 0.5 else Fin (- 0.52)) (lap pos v))
               else new_pos v,
           pos)"
  proof (cases "even iter")
    case True
    then show ?thesis
      by (simp add: taubin_sub_iteration_eq taubin_step_def even_iff_mod_2_eq_zero fun_eq_iff)
  next
    case False
    then show ?thesis
      by (simp add: taubin_sub_iteration_eq taubin_step_def even_iff_mod_2_eq_zero fun_eq_iff)
  qed
qed

theorem taubin_smooth_sub_iterations_witness:
  "(- 1073741824 \<le> (1::int) \<and> (1::int) \<le> 1073741823) \<and>
   (\<exists>r. taubin_smooth (uniform_laplacian grid3_ring) grid3 grid3_pos 1 = Inr r
      \<and> r 4 = Vec3d (Fin 1) (Fin 1) (Fin 0.76) \<and> r 0 = grid3_pos 0)"
  using taubin_smooth_sub_iterations [of 1 "uniform_laplacian grid3_ring" grid3 grid3_pos]
  by (simp add: upt_0_2 grid3_def uniform_laplacian_def grid3_ring_def grid3_pos_def
      vzero_def dsub_def dbl_small)

lemma smooth_batch_other:
  "v \<notin> set vids \<Longrightarrow> smooth_batch lap weight live vids np v = np v"
  unfolding smooth_batch_def
  by (induction vids arbitrary: np) auto

lemma for_each_vertex_parallel_other:
  "(\<And>t. t < n \<Longrightarrow> v \<notin> set (batches ! t)) \<Longrightarrow>
   for_each_vertex_parallel n batches (smooth_batch lap weight live) np v = np v"
  unfolding for_each_vertex_parallel_def
  by (induction n arbitrary: np) (simp_all add: smooth_batch_other)

lemma batch_vertices_members:
  assumes "batch_vertices m = Inr bs" and "t < CORES" and "v \<in> set (bs ! t)"
  shows "v \<in> set (vertices m)" and "\<not> boundary m v"
proof -
  have "bs ! t \<in> set bs"
    using assms(2) batch_vertices_mset(1) [OF assms(1)] by simp
  with assms(3) have "v \<in> set (concat bs)" by auto
  then have "v \<in> set (interior m)"
    using batch_vertices_mset(2) [OF assms(1)] by (metis set_mset_mset)
  then show "v \<in> set (vertices m)" and "\<not> boundary m v"
    by (simp_all add: interior_def)
qed

lemma laplacian_sweep_boundary:
  assumes "batch_vertices m = Inr bs" and "boundary m v"
  shows "fst (laplacian_sweep lap weight bs (live, new_pos)) v = new_pos v"
    and "snd (laplacian_sweep lap weight bs (live, new_pos)) = live"
proof -
  have "v \<notin> set (bs ! t)" if "t < CORES" for t
    using batch_vertices_members(2) [OF assms(1) that] assms(2) by blast
  then show "fst (laplacian_sweep lap weight bs (live, new_pos)) v = new_pos v"
    by (simp add: laplacian_sweep_def for_each_vertex_parallel_other)
  show "snd (laplacian_sweep lap weight bs (live, new_pos)) = live"
    by (simp add: laplacian_sweep_def)
qed

lemma laplacian_sweeps_boundary:
  assumes "batch_vertices m = Inr bs" and "boundary m v"
    and "fst st v = p" and "snd st v = p"
  shows "fst ((laplacian_sweep lap weight bs ^^ n) st) v = p
       \<and> snd ((laplacian_sweep lap weight bs ^^ n) st) v = p"
proof (induction n)
  case 0
  from assms(3,4) show ?case by simp
next
  case (Suc n)
  obtain live new_pos where st': "(laplacian_sweep lap weight bs ^^ n) st = (live, new_pos)"
    by (cases "(laplacian_sweep lap weight bs ^^ n) st")
  with Suc laplacian_sweep_boundary [OF assms(1,2), of lap weight live new_pos]
  show ?case by simp
qed

lemma taubin_fold_boundary:
  "boundary m v \<Longrightarrow>
   fold (\<lambda>v np. if \<not> boundary m v then np(v := g v) else np) vs np v = np v"
  by (induction vs arbitrary: np) auto

lemma taubin_sub_iteration_boundary:
  assumes "boundary m v"
  shows "fst (taubin_sub_iteration lap m iter (live, new_pos)) v = new_pos v"
    and "snd (taubin_sub_iteration lap m iter (live, new_pos)) = live"
  using assms by (simp_all add: taubin_sub_iteration_def taubin_fold_boundary)

lemma taubin_loop_boundary:
  "boundary m v \<Longrightarrow> fst st v = p \<Longrightarrow> snd st v = p \<Longrightarrow>
   fst (taubin_loop lap m limit iter st) v = p \<and> snd (taubin_loop lap m limit iter st) v = p"
proof (induction lap m limit iter st rule: taubin_loop.induct)
  case (1 lap m limit iter st)
  show ?case
  proof (cases "iter < limit")
    case True
    obtain live new_pos where st: "st = (live, new_pos)" by (cases st)
    have "fst (taubin_sub_iteration lap m iter st) v = p"
      and "snd (taubin_sub_iteration lap m iter st) v = p"
      using "1.prems" st taubin_sub_iteration_boundary [of m v lap iter live new_pos]
      by simp_all
    from "1.IH" [OF True "1.prems"(1) this] True show ?thesis
      by (simp add: taubin_loop.simps [of lap m limit iter st])
  next
    case False
    with "1.prems" show ?thesis
      by (simp add: taubin_loop.simps [of lap m limit iter st])
  qed
qed

text \<open>
  Claim C6: \<open>laplacian_smooth\<close> and \<open>taubin_smooth\<close> leave the position of every boundary
  vertex as it was, for every mesh, weight and iteration count.
\<close>

theorem smooth_boundary_fixed:
  "boundary m v \<Longrightarrow>
   (\<forall>live'. laplacian_smooth lap m live weight max_iter = Inr live' \<longrightarrow> live' v = live v) \<and>
   (\<forall>live'. taubin_smooth lap m live max_iter' = Inr live' \<longrightarrow> live' v = live v)"
proof (intro conjI allI impI)
  fix live'
  assume b: "boundary m v" and r: "laplacian_smooth lap m live weight max_iter = Inr live'"
  from r obtain bs where bs: "batch_vertices m = Inr bs"
    and live': "live' = fst ((laplacian_sweep lap weight bs ^^ range_count max_iter) (live, live))"
    by (auto simp: laplacian_smooth_def split: sum.splits)
  from laplacian_sweeps_boundary [OF bs b, of "(live, live)" "live v"] live'
  show "live' v = live v" by simp
next
  fix live'
  assume b: "boundary m v" and r: "taubin_smooth lap m live max_iter' = Inr live'"
  from r have "live' = fst (taubin_loop lap m (nat (2 * max_iter')) 0 (live, live))"
    by (auto simp: taubin_smooth_def split: if_splits)
  with taubin_loop_boundary [OF b, of "(live, live)" "live v"]
  show "live' v = live v" by simp
qed

theorem smooth_boundary_fixed_witness:
  "boundary grid3 0 \<and>
   (\<exists>r. laplacian_smooth (uniform_laplacian grid3_ring) grid3 grid3_pos (Fin 0.5) 3 = Inr r
      \<and> r 0 = grid3_pos 0) \<and>
   (\<exists>r. taubin_smooth (uniform_laplacian grid3_ring) grid3 grid3_pos 3 = Inr r
      \<and> r 0 = grid3_pos 0)"
  using smooth_boundary_fixed [of grid3 0 "uniform_laplacian grid3_ring" grid3_pos
      "Fin 0.5" 3 3]
  by (simp add: laplacian_smooth_def batch_vertices_grid3 taubin_smooth_def)
    (simp add: grid3_def)

section \<open>Properties of anisotropic_smooth\<close>

lemma accumulate_halfedge_None:
  "he_face m h = None \<Longrightarrow> accumulate_halfedge m live norms h (vp, cnt) = (vp, cnt)"
  by (simp add: accumulate_halfedge_def)

lemma accumulate_halfedge_Some:
  "he_face m h = Some f \<Longrightarrow>
   accumulate_halfedge m live norms h (vp, cnt) =
     (vp(he_vertex m h := vadd (vp (he_vertex m h)) (contribution m live norms h f)),
      cnt(he_vertex m h := cnt (he_vertex m h) + 1))"
  by (simp add: accumulate_halfedge_def Let_def)

lemma accumulate_fold:
  "fold (accumulate_halfedge m live norms) hs (vp, cnt) =
     (\<lambda>v. vsum (map (\<lambda>hid. contribution m live norms hid (the (he_face m hid)))
                  (filter (\<lambda>hid. he_face m hid \<noteq> None \<and> he_vertex m hid = v) hs)) (vp v),
      \<lambda>v. cnt v + length (filter (\<lambda>hid. he_face m hid \<noteq> None \<and> he_vertex m hid = v) hs))"
proof (induction hs arbitrary: vp cnt)
  case Nil
  then show ?case by (simp add: vsum_def)
next
  case (Cons h hs)
  show ?case
  proof (cases "he_face m h")
    case None
    then show ?thesis
      by (simp add: Cons.IH accumulate_halfedge_None)
  next
    case (Some f)
    then show ?thesis
      by (simp add: Cons.IH accumulate_halfedge_Some vsum_def fun_eq_iff)
  qed
qed

lemma move_vertex_step:
  "fst (move_vertex vp cnt v (live, mm)) = live(v := vdiv (vp v) (Fin (real (cnt v))))"
  by (simp add: move_vertex_def Let_def)

lemma move_fold:
  "fst (fold (move_vertex vp cnt) vs (live, mm)) =
     (\<lambda>v. if v \<in> set vs then vdiv (vp v) (Fin (real (cnt v))) else live v)"
proof (induction vs arbitrary: live mm)
  case Nil
  then show ?case by simp
next
  case (Cons a vs)
  obtain live' mm' where step: "move_vertex vp cnt a (live, mm) = (live', mm')"
    by (cases "move_vertex vp cnt a (live, mm)")
  with move_vertex_step [of vp cnt a live mm]
  have live': "live' = live(a := vdiv (vp a) (Fin (real (cnt a))))" by simp
  have "fst (fold (move_vertex vp cnt) (a # vs) (live, mm)) =
        fst (fold (move_vertex vp cnt) vs (live', mm'))"
    by (simp add: step)
  also have "\<dots> = (\<lambda>v. if v \<in> set vs then vdiv (vp v) (Fin (real (cnt v))) else live' v)"
    by (rule Cons.IH)
  also have "\<dots> = (\<lambda>v. if v \<in> set (a # vs) then vdiv (vp v) (Fin (real (cnt v))) else live v)"
    by (auto simp: live' fun_eq_iff)
  finally show ?case .
qed

lemma sub_iteration_state:
  "fst (sub_iteration m norms (live, vp, cnt)) =
     (\<lambda>v. if v \<in> set (vertices m)
          then vdiv (vsum (contributions m live norms v) (vp v))
                 (Fin (real (cnt v + length (incoming m v))))
          else live v,
      \<lambda>v. vsum (contributions m live norms v) (vp v),
      \<lambda>v. cnt v + length (incoming m v))"
proof -
  obtain live' mm where mv:
    "fold (move_vertex (\<lambda>v. vsum (contributions m live norms v) (vp v))
             (\<lambda>v. cnt v + length (incoming m v))) (vertices m) (live, Fin 0) = (live', mm)"
    by (cases "fold (move_vertex (\<lambda>v. vsum (contributions m live norms v) (vp v))
             (\<lambda>v. cnt v + length (incoming m v))) (vertices m) (live, Fin 0)")
  from move_fold [of "\<lambda>v. vsum (contributions m live norms v) (vp v)"
      "\<lambda>v. cnt v + length (incoming m v)" "vertices m" live "Fin 0"] mv
  have "live' = (\<lambda>v. if v \<in> set (vertices m)
          then vdiv (vsum (contributions m live norms v) (vp v))
                 (Fin (real (cnt v + length (incoming m v))))
          else live v)"
    by simp
  with mv show ?thesis
    by (simp add: sub_iteration_def accumulate_fold contributions_def incoming_def)
qed

lemma relax_Suc: "relax m norms (Suc s) st = fst (sub_iteration m norms (relax m norms s st))"
  by (simp add: relax_def)

lemma relax_Suc_right: "relax m norms (Suc s) st = relax m norms s (fst (sub_iteration m norms st))"
  using funpow_swap1 [of "\<lambda>st. fst (sub_iteration m norms st)" s st]
  by (simp add: relax_def)

lemma vsum_append: "vsum (xs @ ys) a = vsum ys (vsum xs a)"
  by (simp add: vsum_def)

lemma all_contributions_Suc:
  "all_contributions m norms st (Suc s) v =
     all_contributions m norms st s v @ contributions m (fst (relax m norms s st)) norms v"
  by (simp add: all_contributions_def)

lemma length_all_contributions:
  "length (all_contributions m norms st s v) = s * length (incoming m v)"
  by (induction s) (simp_all add: all_contributions_Suc, simp_all add: all_contributions_def contributions_def)

lemma relax_accumulators:
  "fst (snd (relax m norms s (live, vp, cnt))) v =
     vsum (all_contributions m norms (live, vp, cnt) s v) (vp v)
   \<and> snd (snd (relax m norms s (live, vp, cnt))) v =
     cnt v + length (all_contributions m norms (live, vp, cnt) s v)"
proof (induction s)
  case 0
  show ?case by (simp add: relax_def all_contributions_def vsum_def)
next
  case (Suc s)
  obtain live' vp' cnt' where st: "relax m norms s (live, vp, cnt) = (live', vp', cnt')"
    by (cases "relax m norms s (live, vp, cnt)") auto
  with Suc show ?case
    by (simp add: relax_Suc sub_iteration_state all_contributions_Suc vsum_append contributions_def)
qed

lemma relax_position:
  assumes "v \<in> set (vertices m)"
  shows "fst (relax m norms (Suc s) st) v =
     vdiv (fst (snd (relax m norms (Suc s) st)) v)
       (Fin (real (snd (snd (relax m norms (Suc s) st)) v)))"
proof -
  obtain live' vp' cnt' where st: "relax m norms s st = (live', vp', cnt')"
    by (cases "relax m norms s st") auto
  with assms show ?thesis
    by (simp add: relax_Suc sub_iteration_state)
qed

lemma sub_iter_loop_relax:
  "sub_iter < 100 \<Longrightarrow>
   \<exists>k. 1 \<le> k \<and> k \<le> 100 - sub_iter \<and>
       sub_iter_loop m norms avg_len sub_iter st = relax m norms k st"
proof (induction m norms avg_len sub_iter st rule: sub_iter_loop.induct)
  case (1 m norms avg_len sub_iter st)
  obtain st' max_move where step: "sub_iteration m norms st = (st', max_move)"
    by (cases "sub_iteration m norms st")
  then have one: "relax m norms 1 st = st'"
    by (simp add: relax_def)
  show ?case
  proof (cases "dless max_move (sqr (dmul (Fin (1 / 10 ^ 8)) avg_len)) \<or> sub_iter + 1 = 100")
    case True
    with "1.prems" step have "sub_iter_loop m norms avg_len sub_iter st = st'"
      by (auto simp: sub_iter_loop.simps [of m norms avg_len sub_iter st]
          sub_iter_loop.simps [of m norms avg_len 100 st'])
    with one "1.prems" show ?thesis
      by (intro exI [of _ 1]) simp
  next
    case False
    with "1.prems" have lt: "sub_iter + 1 < 100" by simp
    from "1.IH" [OF "1.prems" step [symmetric] refl _ lt] False
    obtain k where k: "1 \<le> k" "k \<le> 100 - (sub_iter + 1)"
      "sub_iter_loop m norms avg_len (sub_iter + 1) st' = relax m norms k st'"
      by auto
    from False "1.prems" step
    have "sub_iter_loop m norms avg_len sub_iter st =
          sub_iter_loop m norms avg_len (sub_iter + 1) st'"
      by (simp add: sub_iter_loop.simps [of m norms avg_len sub_iter st])
    with k step have "sub_iter_loop m norms avg_len sub_iter st = relax m norms (Suc k) st"
      by (simp add: relax_Suc_right)
    with k lt show ?thesis
      by (intro exI [of _ "Suc k"]) simp
  qed
qed

lemma fold_bilateral:
  "nsm = BILATERAL_NORMAL_SMOOTH \<Longrightarrow>
   fold (\<lambda>f r. case r of
            Inl e \<Rightarrow> Inl e
          | Inr filtered_norms \<Rightarrow>
              (if nsm = BILATERAL_NORMAL_SMOOTH
               then Inr (filtered_norms(f := bilateral_filtered_normal G m live f avg_len))
               else (case fvm_filtered_normal G m live fresh f of
                       Inl e \<Rightarrow> Inl e
                     | Inr n \<Rightarrow> Inr (filtered_norms(f := n)))))
     fs (Inr fn) =
   Inr (fold (\<lambda>f filtered_norms.
          filtered_norms(f := bilateral_filtered_normal G m live f avg_len)) fs fn)"
  by (induction fs arbitrary: fn) simp_all

lemma filter_normals_bilateral:
  "filter_normals G m live fresh BILATERAL_NORMAL_SMOOTH avg_len =
     Inr (bilateral_norms G m live fresh avg_len)"
  unfolding filter_normals_def bilateral_norms_def
  by (rule fold_bilateral) simp

lemma outer_iteration_relax:
  assumes "filter_normals G m live fresh nsm avg_len = Inr norms"
  shows "\<exists>k. 1 \<le> k \<and> k \<le> 100 \<and>
    outer_iteration G m fresh nsm avg_len live = Inr (fst (relax m norms k (relax_init live)))"
proof -
  from sub_iter_loop_relax [of 0 m norms avg_len "relax_init live"]
  obtain k where "1 \<le> k" "k \<le> 100"
    "sub_iter_loop m norms avg_len 0 (relax_init live) = relax m norms k (relax_init live)"
    by auto
  with assms show ?thesis
    by (auto simp: outer_iteration_def relax_init_def)
qed

text \<open>
  Claim C9: within one outer iteration \<open>vertex_positions\<close> and \<open>count\<close> are set up once,
  before the first of the at most 100 sub-iterations, and every sub-iteration adds to what
  the earlier ones left.  After \<open>s\<close> sub-iterations \<open>vertex_positions[v]\<close> is the sum of the
  contributions to \<open>v\<close> of all \<open>s\<close> sub-iterations and \<open>count[v]\<close> is their number, \<open>s\<close>
  times the number of half-edges with a face that point to \<open>v\<close>; the position written for
  a vertex \<open>v\<close> is that sum divided by that number.
\<close>

theorem anisotropic_accumulators:
  "(filter_normals G m live fresh nsm avg_len = Inr norms \<longrightarrow>
      (\<exists>k. 1 \<le> k \<and> k \<le> 100 \<and>
         outer_iteration G m fresh nsm avg_len live =
           Inr (fst (relax m norms k (relax_init live))))) \<and>
   fst (snd (relax m norms s (relax_init live))) v =
     vsum (all_contributions m norms (relax_init live) s v) vzero \<and>
   snd (snd (relax m norms s (relax_init live))) v =
     length (all_contributions m norms (relax_init live) s v) \<and>
   length (all_contributions m norms (relax_init live) s v) = s * length (incoming m v) \<and>
   (v \<in> set (vertices m) \<longrightarrow>
      fst (relax m norms (Suc s) (relax_init live)) v =
        vdiv (vsum (all_contributions m norms (relax_init live) (Suc s) v) vzero)
          (Fin (real (length (all_contributions m norms (relax_init live) (Suc s) v)))))"
proof (intro conjI impI)
  assume "filter_normals G m live fresh nsm avg_len = Inr norms"
  then show "\<exists>k. 1 \<le> k \<and> k \<le> 100 \<and>
      outer_iteration G m fresh nsm avg_len live =
        Inr (fst (relax m norms k (relax_init live)))"
    by (rule outer_iteration_relax)
next
  show "fst (snd (relax m norms s (relax_init live))) v =
      vsum (all_contributions m norms (relax_init live) s v) vzero"
    using relax_accumulators [of m norms s live "\<lambda>v. vzero" "\<lambda>v. 0" v]
    by (simp add: relax_init_def)
next
  show "snd (snd (relax m norms s (relax_init live))) v =
      length (all_contributions m norms (relax_init live) s v)"
    using relax_accumulators [of m norms s live "\<lambda>v. vzero" "\<lambda>v. 0" v]
    by (simp add: relax_init_def)
next
  show "length (all_contributions m norms (relax_init live) s v) = s * length (incoming m v)"
    by (rule length_all_contributions)
next
  assume v: "v \<in> set (vertices m)"
  from relax_position [OF v, of norms s "relax_init live"]
    relax_accumulators [of m norms "Suc s" live "\<lambda>v. vzero" "\<lambda>v. 0" v]
  show "fst (relax m norms (Suc s) (relax_init live)) v =
      vdiv (vsum (all_contributions m norms (relax_init live) (Suc s) v) vzero)
        (Fin (real (length (all_contributions m norms (relax_init live) (Suc s) v))))"
    by (simp add: relax_init_def)
qed

lemma incoming_tetra_0: "incoming tetra_mesh 0 = [2, 5, 11]"
  by (simp add: incoming_def tetra_mesh_def)

lemma vertices_tetra_mesh: "vertices tetra_mesh = [0, 1, 2, 3]"
  by (simp add: tetra_mesh_def)

theorem anisotropic_accumulators_witness:
  "filter_normals tetra_geometry tetra_mesh tetra_pos (\<lambda>i. vzero) BILATERAL_NORMAL_SMOOTH (Fin 1) =
     Inr (bilateral_norms tetra_geometry tetra_mesh tetra_pos (\<lambda>i. vzero) (Fin 1)) \<and>
   0 \<in> set (vertices tetra_mesh) \<and>
   (\<exists>k. 1 \<le> k \<and> k \<le> 100 \<and>
      outer_iteration tetra_geometry tetra_mesh (\<lambda>i. vzero) BILATERAL_NORMAL_SMOOTH (Fin 1) tetra_pos =
        Inr (fst (relax tetra_mesh
                (bilateral_norms tetra_geometry tetra_mesh tetra_pos (\<lambda>i. vzero) (Fin 1)) k
                (relax_init tetra_pos)))) \<and>
   snd (snd (relax tetra_mesh
              (bilateral_norms tetra_geometry tetra_mesh tetra_pos (\<lambda>i. vzero) (Fin 1)) 2
              (relax_init tetra_pos))) 0 = 6 \<and>
   fst (relax tetra_mesh
          (bilateral_norms tetra_geometry tetra_mesh tetra_pos (\<lambda>i. vzero) (Fin 1)) 2
          (relax_init tetra_pos)) 0 =
     vdiv (vsum (all_contributions tetra_mesh
                   (bilateral_norms tetra_geometry tetra_mesh tetra_pos (\<lambda>i. vzero) (Fin 1))
                   (relax_init tetra_pos) 2 0) vzero)
       (Fin 6)"
proof -
  let ?N = "bilateral_norms tetra_geometry tetra_mesh tetra_pos (\<lambda>i. vzero) (Fin 1)"
  note two = anisotropic_accumulators [of tetra_geometry tetra_mesh tetra_pos "\<lambda>i. vzero"
      BILATERAL_NORMAL_SMOOTH "Fin 1" ?N 2 0]
  note one = anisotropic_accumulators [of tetra_geometry tetra_mesh tetra_pos "\<lambda>i. vzero"
      BILATERAL_NORMAL_SMOOTH "Fin 1" ?N 1 0]
  have f: "filter_normals tetra_geometry tetra_mesh tetra_pos (\<lambda>i. vzero)
      BILATERAL_NORMAL_SMOOTH (Fin 1) = Inr ?N"
    by (rule filter_normals_bilateral)
  have v: "0 \<in> set (vertices tetra_mesh)"
    by (simp add: vertices_tetra_mesh)
  have len: "length (all_contributions tetra_mesh ?N (relax_init tetra_pos) 2 0) = 6"
    using two by (simp add: incoming_tetra_0)
  have cnt: "snd (snd (relax tetra_mesh ?N 2 (relax_init tetra_pos))) 0 = 6"
    using two len by simp
  have pos: "fst (relax tetra_mesh ?N 2 (relax_init tetra_pos)) 0 =
      vdiv (vsum (all_contributions tetra_mesh ?N (relax_init tetra_pos) 2 0) vzero) (Fin 6)"
    using one v len by (simp add: numeral_2_eq_2)
  from two f have "\<exists>k. 1 \<le> k \<and> k \<le> 100 \<and>
      outer_iteration tetra_geometry tetra_mesh (\<lambda>i. vzero) BILATERAL_NORMAL_SMOOTH (Fin 1)
        tetra_pos = Inr (fst (relax tetra_mesh ?N k (relax_init tetra_pos)))"
    by blast
  with f v cnt pos show ?thesis by blast
qed

lemma length_sum_fold:
  "fold (\<lambda>hid (avg_len, calls). (dadd avg_len (len hid), calls + 1)) hs (a, c) =
     (fold (\<lambda>hid a. dadd a (len hid)) hs a, c + length hs)"
  by (induction hs arbitrary: a c) simp_all

lemma half_edge_length_sum_eq:
  "half_edge_length_sum G m live =
     (fold (\<lambda>hid a. dadd a (g_length G live hid)) (halfedges m) (Fin 0), length (halfedges m))"
  using length_sum_fold [of "g_length G live" "halfedges m" "Fin 0" 0]
  by (simp add: half_edge_length_sum_def)

lemma outer_loop_bilateral:
  "\<exists>live'. outer_loop G m fresh BILATERAL_NORMAL_SMOOTH avg_len k live = Inr live'"
  by (induction k arbitrary: live) (simp_all add: outer_iteration_def filter_normals_bilateral)

lemma sub_iter_loop_until:
  "sub_iter \<le> 100 \<Longrightarrow>
   sub_iter_loop m norms avg_len sub_iter st =
     relax_until m norms (sqr (dmul (Fin (1 / 10 ^ 8)) avg_len)) (100 - sub_iter) st"
proof (induction m norms avg_len sub_iter st rule: sub_iter_loop.induct)
  case (1 m norms avg_len sub_iter st)
  show ?case
  proof (cases "sub_iter < 100")
    case False
    with "1.prems" have "sub_iter = 100" by simp
    then show ?thesis
      by (simp add: sub_iter_loop.simps [of m norms avg_len 100 st])
  next
    case True
    obtain st' max_move where step: "sub_iteration m norms st = (st', max_move)"
      by (cases "sub_iteration m norms st")
    from True have suc: "100 - sub_iter = Suc (100 - (sub_iter + 1))"
      by simp
    show ?thesis
    proof (cases "dless max_move (sqr (dmul (Fin (1 / 10 ^ 8)) avg_len))")
      case below: True
      have "sub_iter_loop m norms avg_len sub_iter st = st'"
        using True step below
        by (simp add: sub_iter_loop.simps [of m norms avg_len sub_iter st])
      moreover have "relax_until m norms (sqr (dmul (Fin (1 / 10 ^ 8)) avg_len))
          (Suc (100 - (sub_iter + 1))) st = st'"
        using step below by simp
      ultimately show ?thesis
        using suc by simp
    next
      case above: False
      from True have le: "sub_iter + 1 \<le> 100" by simp
      have "sub_iter_loop m norms avg_len sub_iter st =
          sub_iter_loop m norms avg_len (sub_iter + 1) st'"
        using True step above
        by (simp add: sub_iter_loop.simps [of m norms avg_len sub_iter st])
      also have "\<dots> = relax_until m norms (sqr (dmul (Fin (1 / 10 ^ 8)) avg_len))
          (100 - (sub_iter + 1)) st'"
        using "1.IH" [OF True step [symmetric] refl above le] .
      also have "\<dots> = relax_until m norms (sqr (dmul (Fin (1 / 10 ^ 8)) avg_len))
          (Suc (100 - (sub_iter + 1))) st"
        using step above by simp
      finally show ?thesis
        using suc by simp
    qed
  qed
qed

lemma fold_fun_upd:
  "fold (\<lambda>f filtered_norms. filtered_norms(f := g f)) fs init =
     (\<lambda>f. if f \<in> set fs then g f else init f)"
  by (induction fs arbitrary: init) (auto simp: fun_eq_iff)

lemma bilateral_norms_pointwise:
  "bilateral_norms G m live fresh avg_len =
     (\<lambda>f. if f \<in> set (faces m) then bilateral_filtered_normal G m live f avg_len else fresh f)"
  unfolding bilateral_norms_def by (rule fold_fun_upd)

lemma fold_fvm:
  "fold (\<lambda>f r. case r of
            Inl e \<Rightarrow> Inl e
          | Inr filtered_norms \<Rightarrow>
              (if FVM_NORMAL_SMOOTH = BILATERAL_NORMAL_SMOOTH
               then Inr (filtered_norms(f := bilateral_filtered_normal G m live f avg_len))
               else (case fvm_filtered_normal G m live fresh f of
                       Inl e \<Rightarrow> Inl e
                     | Inr n \<Rightarrow> Inr (filtered_norms(f := n)))))
     fs r =
   fold (\<lambda>f r. case r of
            Inl e \<Rightarrow> Inl e
          | Inr filtered_norms \<Rightarrow>
              (case fvm_filtered_normal G m live fresh f of
                 Inl e \<Rightarrow> Inl e
               | Inr n \<Rightarrow> Inr (filtered_norms(f := n))))
     fs r"
proof (induction fs arbitrary: r)
  case Nil
  show ?case by simp
next
  case (Cons f fs)
  show ?case
    by (cases r) (simp_all add: Cons.IH)
qed

lemma filter_normals_fvm:
  "filter_normals G m live fresh FVM_NORMAL_SMOOTH avg_len = fvm_norms G m live fresh"
  unfolding filter_normals_def fvm_norms_def by (rule fold_fvm)

lemma outer_iteration_until:
  "outer_iteration G m fresh nsm avg_len live =
     (case (if nsm = BILATERAL_NORMAL_SMOOTH
            then Inr (\<lambda>f. if f \<in> set (faces m)
                          then bilateral_filtered_normal G m live f avg_len else fresh f)
            else fvm_norms G m live fresh) of
        Inl e \<Rightarrow> Inl e
      | Inr filtered_norms \<Rightarrow>
          Inr (fst (relax_until m filtered_norms (sqr (dmul (Fin (1 / 10 ^ 8)) avg_len)) 100
                      (relax_init live))))"
proof (cases nsm)
  case BILATERAL_NORMAL_SMOOTH
  then show ?thesis
    using sub_iter_loop_until [of 0 m _ avg_len "relax_init live"]
    by (simp add: outer_iteration_def filter_normals_bilateral bilateral_norms_pointwise
        relax_init_def)
next
  case FVM_NORMAL_SMOOTH
  then show ?thesis
    using sub_iter_loop_until [of 0 m _ avg_len "relax_init live"]
    by (simp add: outer_iteration_def filter_normals_fvm relax_init_def split: sum.splits)
qed

lemma outer_loop_iterate:
  "outer_loop G m fresh nsm avg_len k live =
     iterate_result (outer_iteration G m fresh nsm avg_len) k live"
  by (induction k arbitrary: live) (simp_all split: sum.splits)

lemma iterate_result_cong:
  "(\<And>x. step x = step' x) \<Longrightarrow> iterate_result step k x = iterate_result step' k x"
  by (induction k arbitrary: x) (simp_all split: sum.splits)

text \<open>
  Claim C8, as amended: \<open>anisotropic_smooth\<close> computes the global average half-edge length
  once per call, before the first outer iteration: the lengths of the half-edges are read
  once each, whatever \<open>max_iter\<close> is.  The value \<open>avg_len\<close> is the sum of the lengths of all
  half-edges at the positions the call starts with, divided by 2.  Every outer iteration
  works with this one value: under \<open>BILATERAL_NORMAL_SMOOTH\<close> the filtered normal of a face
  is \<open>bilateral_filtered_normal\<close> with \<open>avg_len\<close> as the bandwidth of its spatial weight
  \<open>exp(-length(p - p0) / avg_len)\<close>, and the at most 100 sub-iterations end with the first
  one whose \<open>max_move\<close> is below \<open>sqr(1e-8 * avg_len)\<close>.  The FVM filter does not read
  \<open>avg_len\<close>.
\<close>

theorem anisotropic_smooth_avg_len:
  "anisotropic_smooth G m live fresh max_iter nsm =
     (let avg_len =
            ddiv (fold (\<lambda>hid a. dadd a (g_length G live hid)) (halfedges m) (Fin 0)) (Fin 2)
      in case iterate_result
                (\<lambda>pos.
                   case (if nsm = BILATERAL_NORMAL_SMOOTH
                         then Inr (\<lambda>f. if f \<in> set (faces m)
                                       then bilateral_filtered_normal G m pos f avg_len
                                       else fresh f)
                         else fvm_norms G m pos fresh) of
                     Inl e \<Rightarrow> Inl e
                   | Inr filtered_norms \<Rightarrow>
                       Inr (fst (relax_until m filtered_norms
                                   (sqr (dmul (Fin (1 / 10 ^ 8)) avg_len)) 100
                                   (relax_init pos))))
                (nat max_iter) live of
           Inl e \<Rightarrow> Inl e
         | Inr live' \<Rightarrow> Inr (live', length (halfedges m))) \<and>
   bilateral_filtered_normal G m pos f avg_len =
     normalize
       (fold (\<lambda>nbr fn.
                vadd fn
                  (smul (dmul (dmul (g_area G pos nbr)
                                 (dexp (ddiv (dneg (dacos (dmax (Fin (- 1))
                                                 (dmin (Fin 1)
                                                    (dot (g_normal G pos nbr) (g_normal G pos f))))))
                                          (ddiv M_PI (Fin 32)))))
                           (dexp (ddiv (dneg (vlength (vsub (g_centre G pos nbr) (g_centre G pos f))))
                                    avg_len)))
                     (g_normal G pos nbr)))
          (face_neighbourhood m f []) vzero)"
proof
  let ?avg = "ddiv (fold (\<lambda>hid a. dadd a (g_length G live hid)) (halfedges m) (Fin 0)) (Fin 2)"
  have "outer_loop G m fresh nsm ?avg (nat max_iter) live =
      iterate_result
        (\<lambda>pos.
           case (if nsm = BILATERAL_NORMAL_SMOOTH
                 then Inr (\<lambda>f. if f \<in> set (faces m)
                               then bilateral_filtered_normal G m pos f ?avg
                               else fresh f)
                 else fvm_norms G m pos fresh) of
             Inl e \<Rightarrow> Inl e
           | Inr filtered_norms \<Rightarrow>
               Inr (fst (relax_until m filtered_norms
                           (sqr (dmul (Fin (1 / 10 ^ 8)) ?avg)) 100
                           (relax_init pos))))
        (nat max_iter) live"
    unfolding outer_loop_iterate
    by (rule iterate_result_cong) (rule outer_iteration_until)
  then show "anisotropic_smooth G m live fresh max_iter nsm =
     (let avg_len = ?avg
      in case iterate_result
                (\<lambda>pos.
                   case (if nsm = BILATERAL_NORMAL_SMOOTH
                         then Inr (\<lambda>f. if f \<in> set (faces m)
                                       then bilateral_filtered_normal G m pos f avg_len
                                       else fresh f)
                         else fvm_norms G m pos fresh) of
                     Inl e \<Rightarrow> Inl e
                   | Inr filtered_norms \<Rightarrow>
                       Inr (fst (relax_until m filtered_norms
                                   (sqr (dmul (Fin (1 / 10 ^ 8)) avg_len)) 100
                                   (relax_init pos))))
                (nat max_iter) live of
           Inl e \<Rightarrow> Inl e
         | Inr live' \<Rightarrow> Inr (live', length (halfedges m)))"
    unfolding Let_def anisotropic_smooth_def half_edge_length_sum_eq by simp
next
  show "bilateral_filtered_normal G m pos f avg_len =
     normalize
       (fold (\<lambda>nbr fn.
                vadd fn
                  (smul (dmul (dmul (g_area G pos nbr)
                                 (dexp (ddiv (dneg (dacos (dmax (Fin (- 1))
                                                 (dmin (Fin 1)
                                                    (dot (g_normal G pos nbr) (g_normal G pos f))))))
                                          (ddiv M_PI (Fin 32)))))
                           (dexp (ddiv (dneg (vlength (vsub (g_centre G pos nbr) (g_centre G pos f))))
                                    avg_len)))
                     (g_normal G pos nbr)))
          (face_neighbourhood m f []) vzero)"
    unfolding bilateral_filtered_normal_def Let_def by (rule refl)
qed

text \<open>
  Claim C8 as stated fails: in a call with two outer iterations on the tetrahedron, which
  has 12 half-edges, \<open>length(m, hid)\<close> is called 12 times, once per half-edge, and not once
  per half-edge in each outer iteration.
\<close>

theorem anisotropic_smooth_length_calls:
  "map_sum id snd (anisotropic_smooth tetra_geometry tetra_mesh tetra_pos (\<lambda>i. vzero) 2
     BILATERAL_NORMAL_SMOOTH) = Inr (length (halfedges tetra_mesh)) \<and>
   length (halfedges tetra_mesh) = 12"
proof
  let ?avg = "ddiv (fst (half_edge_length_sum tetra_geometry tetra_mesh tetra_pos)) (Fin 2)"
  obtain live' where
    "outer_loop tetra_geometry tetra_mesh (\<lambda>i. vzero) BILATERAL_NORMAL_SMOOTH ?avg (nat 2)
       tetra_pos = Inr live'"
    using outer_loop_bilateral by blast
  then show "map_sum id snd (anisotropic_smooth tetra_geometry tetra_mesh tetra_pos
      (\<lambda>i. vzero) 2 BILATERAL_NORMAL_SMOOTH) = Inr (length (halfedges tetra_mesh))"
    by (simp add: anisotropic_smooth_def half_edge_length_sum_eq)
  show "length (halfedges tetra_mesh) = 12"
    by (simp add: tetra_mesh_def)
qed

section \<open>Properties of TAL_smoothing\<close>

lemma DBL_MAX_ge: "10 ^ 100 \<le> DBL_MAX"
  by (simp add: DBL_MAX_def)

lemma dbl_zero: "dbl 0 = Fin 0"
  using DBL_MAX_big by (simp add: dbl_def)

lemma tetra_area_collapsed: "g_area tetra_geometry collapsed_pos f = Fin 0"
  by (cases "tetra_corners f")
    (simp add: tetra_geometry_def triangle_geometry_def collapsed_pos_def dsub_def dbl_zero
      vlength_def sqr_length_def)

lemma vertex_area_collapsed: "vertex_area tetra_geometry tetra_mesh collapsed_pos v = Fin 0"
proof -
  have "fold (\<lambda>w a. case he_face tetra_mesh w of None \<Rightarrow> a
                 | Some f \<Rightarrow> dadd a (g_area tetra_geometry collapsed_pos f)) ws (Fin 0) = Fin 0"
    for ws
    by (induction ws) (simp_all add: tetra_area_collapsed dbl_zero split: option.split)
  then show ?thesis by (simp add: vertex_area_def)
qed

lemma vertex_areas_collapsed: "vertex_areas tetra_geometry tetra_mesh collapsed_pos v = Fin 0"
proof -
  have "fold (\<lambda>v areas. areas(v := vertex_area tetra_geometry tetra_mesh collapsed_pos v))
          vs (\<lambda>v. Fin 0) v = Fin 0" for vs
    by (induction vs rule: rev_induct) (simp_all add: vertex_area_collapsed)
  then show ?thesis by (simp add: vertex_areas_def)
qed

lemma tetra_mesh_fields:
  "boundary tetra_mesh v = False"
  "faces tetra_mesh = [0, 1, 2, 3]"
  "halfedges tetra_mesh = [0, 1, 2, 3, 4, 5, 6, 7, 8, 9, 10, 11]"
  "he_vertex tetra_mesh h = [2, 1, 0, 1, 3, 0, 2, 3, 1, 3, 2, 0] ! h"
  "he_face tetra_mesh h = (if h < 12 then Some (h div 3) else None)"
  "he_opp tetra_mesh h = [11, 6, 3, 2, 8, 9, 1, 10, 4, 5, 7, 0] ! h"
  "he_next tetra_mesh h = [1, 2, 0, 4, 5, 3, 7, 8, 6, 10, 11, 9] ! h"
  "he_prev tetra_mesh h = [2, 0, 1, 5, 3, 4, 8, 6, 7, 11, 9, 10] ! h"
  "vertex_circ_ccw tetra_mesh v = [[0, 3, 9], [2, 6, 4], [1, 11, 7], [5, 8, 10]] ! v"
  "vertex_circ_cw tetra_mesh v = [[0, 9, 3], [2, 4, 6], [1, 7, 11], [5, 10, 8]] ! v"
  "face_circ_cw tetra_mesh f = [[0, 2, 1], [3, 5, 4], [6, 8, 7], [9, 11, 10]] ! f"
  by (simp_all add: tetra_mesh_def)

lemma tal_laplacian_collapsed:
  "tal_laplacian tetra_mesh collapsed_pos (vertex_areas tetra_geometry tetra_mesh collapsed_pos) 0
     = Vec3d NaN NaN NaN"
  by (simp add: tal_laplacian_def tetra_mesh_fields tal_interior_wedge_def vertex_areas_collapsed
      collapsed_pos_def vzero_def dsub_def dbl_zero Let_def)

text \<open>
  Claim C2: in every smoothing algorithm a ratio with a vanishing denominator gives a zero
  contribution, and every position written back is finite; in particular for the division
  by the weight sum in \<open>TAL_smoothing\<close>.  \<open>TAL_smoothing\<close> divides without a test.  On the
  tetrahedron with all vertices in one point every vertex area is zero, the weight sum of
  vertex 0 is zero, its Laplacian is \<open>0/0\<close>, and one iteration writes NaN into its position.
\<close>

theorem TAL_smoothing_collapsed_tetrahedron:
  "\<not> boundary tetra_mesh 0 \<and>
   TAL_smoothing tetra_geometry tetra_mesh collapsed_pos (Fin 0.5) 1 0 = Vec3d NaN NaN NaN"
proof
  show "\<not> boundary tetra_mesh 0" by (simp add: tetra_mesh_fields)
  have "fold (\<lambda>v p. p(v := vadd (p v) (smul (Fin 0.5) (L v)))) [0, 1, 2, 3] collapsed_pos 0 =
      vadd (collapsed_pos 0) (smul (Fin 0.5) (L 0))" for L
    by simp
  then show "TAL_smoothing tetra_geometry tetra_mesh collapsed_pos (Fin 0.5) 1 0 =
      Vec3d NaN NaN NaN"
    by (simp add: TAL_smoothing_def tal_iteration_def vertices_tetra_mesh
        tal_laplacian_collapsed collapsed_pos_def Let_def)
qed

section \<open>Properties of cot_laplacian\<close>

lemma dbl_small': "\<bar>r\<bar> \<le> 10 ^ 100 \<Longrightarrow> dbl r = Fin r"
  using DBL_MAX_ge by (auto simp: dbl_def)

lemma clamp_fin: "\<exists>z. dmin (Fin 1) (dmax (Fin (- 1)) d) = Fin z \<and> - 1 \<le> z \<and> z \<le> 1"
  by (cases d) (auto simp: dmin_def dmax_def)

lemma wedge_angle_fin: "\<exists>a. wedge_angle n v c = Fin a \<and> 0 \<le> a \<and> a \<le> pi"
proof -
  obtain z where z: "dmin (Fin 1) (dmax (Fin (- 1))
      (dot (cond_normalize (vsub n c)) (cond_normalize (vsub v c)))) = Fin z"
    "- 1 \<le> z" "z \<le> 1"
    using clamp_fin by blast
  then show ?thesis
    by (simp add: wedge_angle_def arccos_lbound arccos_ubound)
qed

lemma cot_weight_fin: "\<exists>w. cot_weight vertex nbr left right = Fin w \<and> \<bar>w\<bar> \<le> 10 ^ 10"
proof -
  obtain a where a: "wedge_angle nbr vertex left = Fin a" "0 \<le> a" "a \<le> pi"
    using wedge_angle_fin by blast
  obtain b where b: "wedge_angle nbr vertex right = Fin b" "0 \<le> b" "b \<le> pi"
    using wedge_angle_fin by blast
  have pi4: "pi \<le> 4" using pi_less_4 by simp
  have sum: "dbl (a + b) = Fin (a + b)"
    using a b pi4 by (intro dbl_small') simp
  have sa: "0 \<le> sin a" "sin a \<le> 1" using a by (simp_all add: sin_ge_zero)
  have sb: "0 \<le> sin b" "sin b \<le> 1" using b by (simp_all add: sin_ge_zero)
  have prod0: "0 \<le> sin a * sin b" using sa sb by simp
  have prod1: "sin a * sin b \<le> 1" using sa sb by (simp add: mult_le_one)
  have prod: "dbl (sin a * sin b) = Fin (sin a * sin b)"
    using prod0 prod1 by (intro dbl_small') simp
  let ?d = "1 / 10 ^ 10 + sin a * sin b"
  have d: "1 / 10 ^ 10 \<le> ?d" "?d \<le> 2" using prod0 prod1 by simp_all
  have den: "dbl ?d = Fin ?d"
    using d by (intro dbl_small') simp
  have "(0::real) < 1 / 10 ^ 10" by simp
  with d(1) have dpos: "0 < ?d" by linarith
  have "\<bar>sin (a + b) / ?d\<bar> = \<bar>sin (a + b)\<bar> / ?d"
    using dpos by simp
  also have "\<dots> \<le> 1 / ?d"
    using dpos by (intro divide_right_mono) simp_all
  also have "\<dots> \<le> 1 / (1 / 10 ^ 10)"
    using d(1) by (intro divide_left_mono) simp_all
  finally have w: "\<bar>sin (a + b) / ?d\<bar> \<le> 10 ^ 10" by simp
  then have "dbl (sin (a + b) / ?d) = Fin (sin (a + b) / ?d)"
    by (intro dbl_small') simp
  with a b sum prod den dpos w show ?thesis
    by (simp add: cot_weight_def)
qed

lemma isnan_dbl: "\<not> isnan (dbl r)"
  by (simp add: dbl_def)

lemma component_no_nan:
  "\<not> isnan x \<Longrightarrow> 0 < W \<Longrightarrow> \<not> isnan (dsub (ddiv x (Fin W)) (Fin c))"
  by (cases x) (auto simp: dsub_def dbl_def)

lemma cot_wedge_w_sum:
  "snd (cot_wedge m live v wv (p, w_sum)) =
     dadd w_sum (cot_weight (live v) (live (he_vertex m wv)) (live (he_vertex m (he_next m wv)))
                   (live (he_vertex m (he_opp m (he_prev m (he_opp m wv))))))"
  by (simp add: cot_wedge_def Let_def)

lemma fold_cot_wedge_w_sum:
  "\<bar>W\<bar> + real (length ws) * 10 ^ 10 \<le> 10 ^ 100 \<Longrightarrow>
   \<exists>W'. snd (fold (cot_wedge m live v) ws (p, Fin W)) = Fin W'"
proof (induction ws arbitrary: p W)
  case Nil
  then show ?case by simp
next
  case (Cons wv ws)
  obtain p' s' where step: "cot_wedge m live v wv (p, Fin W) = (p', s')"
    by (cases "cot_wedge m live v wv (p, Fin W)")
  obtain w where w: "cot_weight (live v) (live (he_vertex m wv))
      (live (he_vertex m (he_next m wv)))
      (live (he_vertex m (he_opp m (he_prev m (he_opp m wv))))) = Fin w" "\<bar>w\<bar> \<le> 10 ^ 10"
    using cot_weight_fin by blast
  have bound: "\<bar>W + w\<bar> + real (length ws) * 10 ^ 10 \<le> 10 ^ 100"
    using Cons.prems w(2) by (simp add: algebra_simps)
  moreover have "0 \<le> real (length ws) * 10 ^ 10" by simp
  ultimately have "\<bar>W + w\<bar> \<le> 10 ^ 100" by linarith
  then have "dbl (W + w) = Fin (W + w)" by (rule dbl_small')
  with cot_wedge_w_sum [of m live v wv p "Fin W"] step w
  have "s' = Fin (W + w)" by simp
  with step Cons.IH [OF bound, of p'] show ?case by simp
qed

text \<open>
  Claim C3, as amended: \<open>cot_laplacian(m, v)\<close> returns the zero vector whenever the
  accumulated weight sum is below \<open>1e-20\<close> or a component of the accumulated weighted
  position sum is a NaN.  An infinite component is not tested.  For a vertex at a finite
  position the result therefore never has a NaN component, whatever triangles surround
  the vertex; it can have an infinite one.
\<close>

theorem cot_laplacian_guard:
  "(cot_accumulate m live v = (Vec3d p0 p1 p2, w_sum) \<and>
      (dless w_sum (Fin (1 / 10 ^ 20)) \<or> isnan p0 \<or> isnan p1 \<or> isnan p2)
      \<longrightarrow> cot_laplacian m live v = vzero) \<and>
   (vfinite (live v) \<and> length (vertex_circ_ccw m v) < 2 ^ 64
      \<longrightarrow> \<not> has_nan (cot_laplacian m live v))"
proof (intro conjI impI)
  assume "cot_accumulate m live v = (Vec3d p0 p1 p2, w_sum) \<and>
      (dless w_sum (Fin (1 / 10 ^ 20)) \<or> isnan p0 \<or> isnan p1 \<or> isnan p2)"
  then show "cot_laplacian m live v = vzero"
    by (auto simp: cot_laplacian_def)
next
  assume a: "vfinite (live v) \<and> length (vertex_circ_ccw m v) < 2 ^ 64"
  obtain a b c where lv: "live v = Vec3d (Fin a) (Fin b) (Fin c)"
    using a by (cases "live v" rule: vfinite.cases) auto
  obtain q0 q1 q2 s where acc: "cot_accumulate m live v = (Vec3d q0 q1 q2, s)"
    by (metis Vec3d.exhaust surj_pair)
  have "real (length (vertex_circ_ccw m v)) \<le> 2 ^ 64"
    using a by (metis less_imp_le of_nat_le_iff of_nat_numeral of_nat_power)
  then have "\<bar>0::real\<bar> + real (length (vertex_circ_ccw m v)) * 10 ^ 10 \<le> 2 ^ 64 * 10 ^ 10"
    by simp
  also have "(2 ^ 64 * 10 ^ 10 :: real) \<le> 10 ^ 100" by simp
  finally obtain W where "snd (fold (cot_wedge m live v) (vertex_circ_ccw m v) (vzero, Fin 0)) = Fin W"
    using fold_cot_wedge_w_sum by blast
  with acc have s: "s = Fin W" by (simp add: cot_accumulate_def)
  show "\<not> has_nan (cot_laplacian m live v)"
  proof (cases "dless s (Fin (1 / 10 ^ 20)) \<or> isnan q0 \<or> isnan q1 \<or> isnan q2")
    case True
    with acc show ?thesis by (simp add: cot_laplacian_def vzero_def)
  next
    case False
    with s have "0 < W" by (simp add: not_less)
    with False acc s lv show ?thesis
      by (simp add: cot_laplacian_def component_no_nan)
  qed
qed

lemma dbl_pi_half: "dbl (pi / 2) = Fin (pi / 2)"
proof -
  have "\<bar>pi / 2\<bar> \<le> 10 ^ 100"
    using pi_less_4 pi_gt_zero by simp
  then show ?thesis by (rule dbl_small')
qed

lemma dbl_pi: "dbl pi = Fin pi"
proof -
  have "\<bar>pi\<bar> \<le> 10 ^ 100"
    using pi_less_4 pi_gt_zero by simp
  then show ?thesis by (rule dbl_small')
qed

lemma dbl_overflow: "dbl (10000000000 * far) = PInf"
  by (simp add: dbl_def DBL_MAX_def far_def)

lemma sqrt_9: "sqrt 9 = 3"
  using real_sqrt_abs2 [of 3] by simp

lemmas eval_angle = wedge_angle_def cond_normalize_def sqr_length_def dsub_def dbl_small'
  vzero_def dmax_def dmin_def Let_def sqrt_9

lemma cot_weight_line_1:
  "cot_weight (Vec3d (Fin x) (Fin 0) (Fin 0)) (Vec3d (Fin x) (Fin 1) (Fin 0))
     (Vec3d (Fin x) (Fin (- 2)) (Fin 0)) (Vec3d (Fin x) (Fin 0) (Fin 0)) = Fin (10 ^ 10)"
  by (simp add: cot_weight_def eval_angle dbl_pi_half)

lemma cot_weight_line_2:
  "cot_weight (Vec3d (Fin x) (Fin 0) (Fin 0)) (Vec3d (Fin x) (Fin (- 2)) (Fin 0))
     (Vec3d (Fin x) (Fin 0) (Fin 0)) (Vec3d (Fin x) (Fin 1) (Fin 0)) = Fin (10 ^ 10)"
  by (simp add: cot_weight_def eval_angle dbl_pi_half)

lemma cot_weight_line_3:
  "cot_weight (Vec3d (Fin x) (Fin 0) (Fin 0)) (Vec3d (Fin x) (Fin 0) (Fin 0))
     (Vec3d (Fin x) (Fin 1) (Fin 0)) (Vec3d (Fin x) (Fin (- 2)) (Fin 0)) = Fin 0"
  by (simp add: cot_weight_def eval_angle)

lemma cot_accumulate_line:
  "cot_accumulate tetra_mesh (line_pos x) 0 =
     (Vec3d (dadd (dadd (dadd (Fin 0) (dbl (10000000000 * x))) (dbl (10000000000 * x))) (Fin 0))
        (Fin (- 10000000000)) (Fin 0),
      Fin 20000000000)"
  by (simp add: cot_accumulate_def cot_wedge_def tetra_mesh_fields line_pos_def
      cot_weight_line_1 cot_weight_line_2 cot_weight_line_3 vzero_def dbl_small' Let_def)

lemma cot_accumulate_far:
  "cot_accumulate tetra_mesh (line_pos far) 0 =
     (Vec3d PInf (Fin (- 10000000000)) (Fin 0), Fin 20000000000)"
  by (simp add: cot_accumulate_line dbl_overflow)

text \<open>
  Claim C3 as stated fails on the flattened tetrahedron at the distance \<open>10^300\<close>: all
  positions are finite and vertex 0 is a corner of triangles of area zero; two wedges get
  the weight \<open>10^10\<close>, the first component of the weighted position sum overflows to
  \<open>+infinity\<close>, the weight sum is \<open>2 * 10^10\<close>, no test finds a NaN, and the result has
  an infinite component.
\<close>

theorem cot_laplacian_far_line:
  "vfinite (line_pos far 0) \<and> vfinite (line_pos far 1) \<and> vfinite (line_pos far 2) \<and>
   vfinite (line_pos far 3) \<and>
   cot_accumulate tetra_mesh (line_pos far) 0 =
     (Vec3d PInf (Fin (- 10000000000)) (Fin 0), Fin 20000000000) \<and>
   cot_laplacian tetra_mesh (line_pos far) 0 = Vec3d PInf (Fin (- 0.5)) (Fin 0)"
  by (simp add: cot_laplacian_def cot_accumulate_far)
    (simp add: line_pos_def dsub_def dbl_small')

lemma cot_weight_nan_1:
  "cot_weight (Vec3d (Fin 0) (Fin 0) (Fin 0)) (Vec3d NaN (Fin 1) (Fin 0))
     (Vec3d (Fin 0) (Fin (- 2)) (Fin 0)) (Vec3d (Fin 0) (Fin 0) (Fin 0)) = Fin 0"
  by (simp add: cot_weight_def eval_angle dbl_pi)

lemma cot_weight_nan_2:
  "cot_weight (Vec3d (Fin 0) (Fin 0) (Fin 0)) (Vec3d (Fin 0) (Fin (- 2)) (Fin 0))
     (Vec3d (Fin 0) (Fin 0) (Fin 0)) (Vec3d NaN (Fin 1) (Fin 0)) = Fin 0"
  by (simp add: cot_weight_def eval_angle dbl_pi)

lemma cot_weight_nan_3:
  "cot_weight (Vec3d (Fin 0) (Fin 0) (Fin 0)) (Vec3d (Fin 0) (Fin 0) (Fin 0))
     (Vec3d NaN (Fin 1) (Fin 0)) (Vec3d (Fin 0) (Fin (- 2)) (Fin 0)) = Fin (10 ^ 10)"
  by (simp add: cot_weight_def eval_angle dbl_pi_half)

lemma cot_accumulate_nan:
  "cot_accumulate tetra_mesh nan_pos 0 = (Vec3d NaN (Fin 0) (Fin 0), Fin 10000000000)"
  by (simp add: cot_accumulate_def cot_wedge_def tetra_mesh_fields nan_pos_def
      cot_weight_nan_1 cot_weight_nan_2 cot_weight_nan_3 vzero_def dbl_small' Let_def)

theorem cot_laplacian_guard_witness:
  "cot_accumulate tetra_mesh nan_pos 0 = (Vec3d NaN (Fin 0) (Fin 0), Fin 10000000000) \<and>
   isnan NaN \<and> cot_laplacian tetra_mesh nan_pos 0 = vzero \<and>
   vfinite (nan_pos 0) \<and> length (vertex_circ_ccw tetra_mesh 0) < 2 ^ 64 \<and>
   \<not> has_nan (cot_laplacian tetra_mesh nan_pos 0)"
proof -
  note guard = cot_laplacian_guard [of tetra_mesh nan_pos 0 NaN "Fin 0" "Fin 0"
      "Fin 10000000000"]
  have fin: "vfinite (nan_pos 0)" by (simp add: nan_pos_def)
  have len: "length (vertex_circ_ccw tetra_mesh 0) < 2 ^ 64"
    by (simp add: tetra_mesh_fields)
  from guard cot_accumulate_nan have "cot_laplacian tetra_mesh nan_pos 0 = vzero" by simp
  moreover from guard fin len have "\<not> has_nan (cot_laplacian tetra_mesh nan_pos 0)" by blast
  ultimately show ?thesis
    using cot_accumulate_nan fin len by simp
qed

lemma fold_cot_wedge:
  "fold (cot_wedge m live v) ws (p, s) =
     (vsum (map (\<lambda>wv. smul (wedge_weight m live v wv) (live (he_vertex m wv))) ws) p,
      dsum (map (wedge_weight m live v) ws) s)"
proof (induction ws arbitrary: p s)
  case Nil
  show ?case by (simp add: vsum_def dsum_def)
next
  case (Cons wv ws)
  have "cot_wedge m live v wv (p, s) =
      (vadd p (smul (wedge_weight m live v wv) (live (he_vertex m wv))),
       dadd s (wedge_weight m live v wv))"
    by (simp add: cot_wedge_def wedge_weight_def Let_def)
  then show ?case
    by (simp add: Cons.IH vsum_def dsum_def)
qed

lemma cot_accumulate_sums:
  "cot_accumulate m live v =
     (vsum (map (\<lambda>wv. smul (wedge_weight m live v wv) (live (he_vertex m wv)))
              (vertex_circ_ccw m v)) vzero,
      dsum (map (wedge_weight m live v) (vertex_circ_ccw m v)) (Fin 0))"
  by (simp add: cot_accumulate_def fold_cot_wedge)

text \<open>
  Claim C5, as amended: where the accumulated weight sum is not below \<open>1e-20\<close> and the
  accumulated weighted position sum has no NaN, \<open>cot_laplacian(m, v)\<close> is the weighted
  position sum divided by the weight sum, minus the position of \<open>v\<close>; in every other case
  it is the zero vector, also for a one-ring of triangles that are not degenerate.  The
  weight of a wedge is \<open>sin(a_left + a_right) / (1e-10 + sin(a_left)*sin(a_right))\<close>, and
  the angles are the \<open>acos\<close> of the dot products of the normalized edge vectors, clamped
  to \<open>[-1, 1]\<close>.
\<close>

theorem cot_laplacian_formula:
  "(\<not> dless (dsum (map (wedge_weight m live v) (vertex_circ_ccw m v)) (Fin 0)) (Fin (1 / 10 ^ 20)) \<and>
    \<not> has_nan (vsum (map (\<lambda>wv. smul (wedge_weight m live v wv) (live (he_vertex m wv)))
                        (vertex_circ_ccw m v)) vzero)
    \<longrightarrow> cot_laplacian m live v =
          vsub (vdiv (vsum (map (\<lambda>wv. smul (wedge_weight m live v wv) (live (he_vertex m wv)))
                              (vertex_circ_ccw m v)) vzero)
                  (dsum (map (wedge_weight m live v) (vertex_circ_ccw m v)) (Fin 0)))
            (live v)) \<and>
   (dless (dsum (map (wedge_weight m live v) (vertex_circ_ccw m v)) (Fin 0)) (Fin (1 / 10 ^ 20)) \<or>
    has_nan (vsum (map (\<lambda>wv. smul (wedge_weight m live v wv) (live (he_vertex m wv)))
                      (vertex_circ_ccw m v)) vzero)
    \<longrightarrow> cot_laplacian m live v = vzero) \<and>
   wedge_weight m live v wv =
     (let nbr = live (he_vertex m wv);
          left = live (he_vertex m (he_next m wv));
          right = live (he_vertex m (he_opp m (he_prev m (he_opp m wv))));
          a_left = dacos (dmin (Fin 1) (dmax (Fin (- 1))
                     (dot (cond_normalize (vsub nbr left)) (cond_normalize (vsub (live v) left)))));
          a_right = dacos (dmin (Fin 1) (dmax (Fin (- 1))
                     (dot (cond_normalize (vsub nbr right)) (cond_normalize (vsub (live v) right)))))
      in ddiv (dsin (dadd a_left a_right))
           (dadd (Fin (1 / 10 ^ 10)) (dmul (dsin a_left) (dsin a_right))))"
proof (intro conjI impI)
  let ?P = "vsum (map (\<lambda>wv. smul (wedge_weight m live v wv) (live (he_vertex m wv)))
                   (vertex_circ_ccw m v)) vzero"
  let ?W = "dsum (map (wedge_weight m live v) (vertex_circ_ccw m v)) (Fin 0)"
  obtain p0 p1 p2 where P: "?P = Vec3d p0 p1 p2" by (cases ?P)
  {
    assume ok: "\<not> dless ?W (Fin (1 / 10 ^ 20)) \<and> \<not> has_nan ?P"
    with P show "cot_laplacian m live v = vsub (vdiv ?P ?W) (live v)"
      by (simp add: cot_laplacian_def cot_accumulate_sums)
  }
  {
    assume "dless ?W (Fin (1 / 10 ^ 20)) \<or> has_nan ?P"
    with P show "cot_laplacian m live v = vzero"
      by (auto simp: cot_laplacian_def cot_accumulate_sums)
  }
next
  show "wedge_weight m live v wv =
     (let nbr = live (he_vertex m wv);
          left = live (he_vertex m (he_next m wv));
          right = live (he_vertex m (he_opp m (he_prev m (he_opp m wv))));
          a_left = dacos (dmin (Fin 1) (dmax (Fin (- 1))
                     (dot (cond_normalize (vsub nbr left)) (cond_normalize (vsub (live v) left)))));
          a_right = dacos (dmin (Fin 1) (dmax (Fin (- 1))
                     (dot (cond_normalize (vsub nbr right)) (cond_normalize (vsub (live v) right)))))
      in ddiv (dsin (dadd a_left a_right))
           (dadd (Fin (1 / 10 ^ 10)) (dmul (dsin a_left) (dsin a_right))))"
    by (simp add: wedge_weight_def cot_weight_def wedge_angle_def Let_def)
qed

lemma quad_mesh_fields:
  "vertices quad_mesh = [0, 1, 2, 3]"
  "faces quad_mesh = [0, 1]"
  "he_vertex quad_mesh h = [1, 2, 0, 2, 3, 0, 0, 1, 2, 3] ! h"
  "he_face quad_mesh h = (if h < 3 then Some 0 else if h < 6 then Some 1 else None)"
  "he_opp quad_mesh h = [6, 7, 3, 2, 8, 9, 0, 1, 4, 5] ! h"
  "he_next quad_mesh h = [1, 2, 0, 4, 5, 3, 9, 6, 7, 8] ! h"
  "he_prev quad_mesh h = [2, 0, 1, 5, 3, 4, 7, 8, 9, 6] ! h"
  "vertex_circ_ccw quad_mesh v = [[9, 0, 3], [6, 1], [7, 4, 2], [8, 5]] ! v"
  "vertex_circ_cw quad_mesh v = [[9, 3, 0], [6, 1], [7, 2, 4], [8, 5]] ! v"
  "face_circ_cw quad_mesh f = [[0, 2, 1], [3, 5, 4]] ! f"
  by (simp_all add: quad_mesh_def)

lemma sqrt_1225: "sqrt 1225 = 35"
  using real_sqrt_abs2 [of 35] by simp

lemma sqrt_5625: "sqrt 5625 = 75"
  using real_sqrt_abs2 [of 75] by simp

lemma sqrt_10000: "sqrt 10000 = 100"
  using real_sqrt_abs2 [of 100] by simp

lemmas eval_kite = eval_angle sqrt_1225 sqrt_5625 sqrt_10000

lemma angle_tip_outer:
  "wedge_angle (Vec3d (Fin (- 21)) (Fin 28) (Fin 0)) (Vec3d (Fin 75) (Fin 0) (Fin 0))
     (Vec3d (Fin 0) (Fin 0) (Fin 0)) = Fin (arccos (- (3 / 5)))"
  by (simp add: eval_kite)

lemma angle_tip_outer':
  "wedge_angle (Vec3d (Fin (- 21)) (Fin (- 28)) (Fin 0)) (Vec3d (Fin 75) (Fin 0) (Fin 0))
     (Vec3d (Fin 0) (Fin 0) (Fin 0)) = Fin (arccos (- (3 / 5)))"
  by (simp add: eval_kite)

lemma angle_tip_inner:
  "wedge_angle (Vec3d (Fin 0) (Fin 0) (Fin 0)) (Vec3d (Fin 75) (Fin 0) (Fin 0))
     (Vec3d (Fin (- 21)) (Fin 28) (Fin 0)) = Fin (arccos (4 / 5))"
  "wedge_angle (Vec3d (Fin 0) (Fin 0) (Fin 0)) (Vec3d (Fin 75) (Fin 0) (Fin 0))
     (Vec3d (Fin (- 21)) (Fin (- 28)) (Fin 0)) = Fin (arccos (4 / 5))"
  by (simp_all add: eval_kite)

lemma angle_reflex_outer:
  "wedge_angle (Vec3d (Fin (- 21)) (Fin (- 28)) (Fin 0)) (Vec3d (Fin 0) (Fin 0) (Fin 0))
     (Vec3d (Fin 75) (Fin 0) (Fin 0)) = Fin (arccos (24 / 25))"
  "wedge_angle (Vec3d (Fin (- 21)) (Fin 28) (Fin 0)) (Vec3d (Fin 0) (Fin 0) (Fin 0))
     (Vec3d (Fin 75) (Fin 0) (Fin 0)) = Fin (arccos (24 / 25))"
  by (simp_all add: eval_kite)

lemma angle_reflex_inner:
  "wedge_angle (Vec3d (Fin 75) (Fin 0) (Fin 0)) (Vec3d (Fin 0) (Fin 0) (Fin 0))
     (Vec3d (Fin (- 21)) (Fin (- 28)) (Fin 0)) = Fin (arccos (4 / 5))"
  "wedge_angle (Vec3d (Fin 75) (Fin 0) (Fin 0)) (Vec3d (Fin 0) (Fin 0) (Fin 0))
     (Vec3d (Fin (- 21)) (Fin 28) (Fin 0)) = Fin (arccos (4 / 5))"
  by (simp_all add: eval_kite)

lemma cot_weight_value:
  assumes a: "wedge_angle nbr vertex left = Fin a" "0 \<le> a" "a \<le> pi"
    and b: "wedge_angle nbr vertex right = Fin b" "0 \<le> b" "b \<le> pi"
  shows "cot_weight vertex nbr left right =
     Fin (sin (a + b) / (1 / 10 ^ 10 + sin a * sin b))"
proof -
  have pi4: "pi \<le> 4" using pi_less_4 by simp
  have sum: "dbl (a + b) = Fin (a + b)"
    using a b pi4 by (intro dbl_small') simp
  have sa: "0 \<le> sin a" "sin a \<le> 1" using a by (simp_all add: sin_ge_zero)
  have sb: "0 \<le> sin b" "sin b \<le> 1" using b by (simp_all add: sin_ge_zero)
  have prod0: "0 \<le> sin a * sin b" using sa sb by simp
  have prod1: "sin a * sin b \<le> 1" using sa sb by (simp add: mult_le_one)
  have prod: "dbl (sin a * sin b) = Fin (sin a * sin b)"
    using prod0 prod1 by (intro dbl_small') simp
  let ?d = "1 / 10 ^ 10 + sin a * sin b"
  have d: "1 / 10 ^ 10 \<le> ?d" "?d \<le> 2" using prod0 prod1 by simp_all
  have den: "dbl ?d = Fin ?d"
    using d by (intro dbl_small') simp
  have "(0::real) < 1 / 10 ^ 10" by simp
  with d(1) have dpos: "0 < ?d" by linarith
  have "\<bar>sin (a + b) / ?d\<bar> = \<bar>sin (a + b)\<bar> / ?d"
    using dpos by simp
  also have "\<dots> \<le> 1 / ?d"
    using dpos by (intro divide_right_mono) simp_all
  also have "\<dots> \<le> 1 / (1 / 10 ^ 10)"
    using d(1) by (intro divide_left_mono) simp_all
  finally have w: "\<bar>sin (a + b) / ?d\<bar> \<le> 10 ^ 10" by simp
  then have "dbl (sin (a + b) / ?d) = Fin (sin (a + b) / ?d)"
    by (intro dbl_small') simp
  with a b sum prod den dpos show ?thesis
    by (simp add: cot_weight_def)
qed

lemma sin_arccos_value:
  assumes "- 1 \<le> x" "x \<le> 1" "0 \<le> s" "s * s = 1 - x * x"
  shows "sin (arccos x) = s"
proof -
  have "sin (arccos x) = sqrt (1 - x\<^sup>2)"
    using assms(1,2) by (rule sin_arccos)
  also have "1 - x\<^sup>2 = s * s"
    using assms(4) by (simp add: power2_eq_square)
  also have "sqrt (s * s) = s"
    using assms(3) by simp
  finally show ?thesis .
qed

lemma cot_weight_arccos:
  assumes "wedge_angle nbr vertex left = Fin (arccos x)"
    and "wedge_angle nbr vertex right = Fin (arccos y)"
    and x: "- 1 \<le> x" "x \<le> 1" "0 \<le> sx" "sx * sx = 1 - x * x"
    and y: "- 1 \<le> y" "y \<le> 1" "0 \<le> sy" "sy * sy = 1 - y * y"
  shows "cot_weight vertex nbr left right =
     Fin ((sx * y + x * sy) / (1 / 10 ^ 10 + sx * sy))"
proof -
  have "sin (arccos x) = sx" "sin (arccos y) = sy"
    using x y by (simp_all add: sin_arccos_value)
  moreover have "cos (arccos x) = x" "cos (arccos y) = y"
    using x y by simp_all
  ultimately have "sin (arccos x + arccos y) = sx * y + x * sy"
    by (simp add: sin_add)
  with \<open>sin (arccos x) = sx\<close> \<open>sin (arccos y) = sy\<close>
    cot_weight_value [OF assms(1) arccos_lbound [OF x(1,2)] arccos_ubound [OF x(1,2)]
      assms(2) arccos_lbound [OF y(1,2)] arccos_ubound [OF y(1,2)]]
  show ?thesis by simp
qed

lemma cot_weight_tip_outer:
  "cot_weight (Vec3d (Fin 75) (Fin 0) (Fin 0)) (Vec3d (Fin (- 21)) (Fin 28) (Fin 0))
     (Vec3d (Fin 0) (Fin 0) (Fin 0)) (Vec3d (Fin 0) (Fin 0) (Fin 0)) =
   Fin (- (24 / 25) / (1 / 10 ^ 10 + 16 / 25))"
  "cot_weight (Vec3d (Fin 75) (Fin 0) (Fin 0)) (Vec3d (Fin (- 21)) (Fin (- 28)) (Fin 0))
     (Vec3d (Fin 0) (Fin 0) (Fin 0)) (Vec3d (Fin 0) (Fin 0) (Fin 0)) =
   Fin (- (24 / 25) / (1 / 10 ^ 10 + 16 / 25))"
  using cot_weight_arccos [OF angle_tip_outer angle_tip_outer, of "4 / 5" "4 / 5"]
    cot_weight_arccos [OF angle_tip_outer' angle_tip_outer', of "4 / 5" "4 / 5"]
  by simp_all

lemma cot_weight_tip_inner:
  "cot_weight (Vec3d (Fin 75) (Fin 0) (Fin 0)) (Vec3d (Fin 0) (Fin 0) (Fin 0))
     (Vec3d (Fin (- 21)) (Fin 28) (Fin 0)) (Vec3d (Fin (- 21)) (Fin (- 28)) (Fin 0)) =
   Fin (24 / 25 / (1 / 10 ^ 10 + 9 / 25))"
  using cot_weight_arccos [OF angle_tip_inner(1) angle_tip_inner(2), of "3 / 5" "3 / 5"]
  by simp

lemma cot_weight_reflex_outer:
  "cot_weight (Vec3d (Fin 0) (Fin 0) (Fin 0)) (Vec3d (Fin (- 21)) (Fin (- 28)) (Fin 0))
     (Vec3d (Fin 75) (Fin 0) (Fin 0)) (Vec3d (Fin 75) (Fin 0) (Fin 0)) =
   Fin (336 / 625 / (1 / 10 ^ 10 + 49 / 625))"
  "cot_weight (Vec3d (Fin 0) (Fin 0) (Fin 0)) (Vec3d (Fin (- 21)) (Fin 28) (Fin 0))
     (Vec3d (Fin 75) (Fin 0) (Fin 0)) (Vec3d (Fin 75) (Fin 0) (Fin 0)) =
   Fin (336 / 625 / (1 / 10 ^ 10 + 49 / 625))"
  using cot_weight_arccos [OF angle_reflex_outer(1) angle_reflex_outer(1), of "7 / 25" "7 / 25"]
    cot_weight_arccos [OF angle_reflex_outer(2) angle_reflex_outer(2), of "7 / 25" "7 / 25"]
  by simp_all

lemma cot_weight_reflex_inner:
  "cot_weight (Vec3d (Fin 0) (Fin 0) (Fin 0)) (Vec3d (Fin 75) (Fin 0) (Fin 0))
     (Vec3d (Fin (- 21)) (Fin (- 28)) (Fin 0)) (Vec3d (Fin (- 21)) (Fin 28) (Fin 0)) =
   Fin (24 / 25 / (1 / 10 ^ 10 + 9 / 25))"
  using cot_weight_arccos [OF angle_reflex_inner(1) angle_reflex_inner(2), of "3 / 5" "3 / 5"]
  by simp

lemma cot_accumulate_tip:
  "cot_accumulate quad_mesh kite_pos 2 =
     (Vec3d (Fin (403200000000 / 6400000001)) (Fin 0) (Fin 0),
      Fin (- (7680000009600000000 / 23040000010000000001)))"
  by (simp add: cot_accumulate_def cot_wedge_def quad_mesh_fields kite_pos_def
      vzero_def Let_def)
    (simp add: cot_weight_tip_outer cot_weight_tip_inner dbl_small')

lemma cot_accumulate_reflex:
  "cot_accumulate quad_mesh kite_pos 0 =
     (Vec3d (Fin (- (248371199505792000000 / 2822400004384000001))) (Fin 0) (Fin 0),
      Fin (46233600020352000000 / 2822400004384000001))"
  by (simp add: cot_accumulate_def cot_wedge_def quad_mesh_fields kite_pos_def
      vzero_def Let_def)
    (simp add: cot_weight_reflex_outer cot_weight_reflex_inner dbl_small')

lemma sqrt_4410000: "sqrt 4410000 = 2100"
  using real_sqrt_abs2 [of 2100] by simp

lemma kite_areas:
  "g_area quad_geometry kite_pos 0 = Fin 1050"
  "g_area quad_geometry kite_pos 1 = Fin 1050"
  by (simp_all add: quad_geometry_def triangle_geometry_def quad_corners_def kite_pos_def
      vlength_def sqr_length_def dsub_def dbl_small' sqrt_4410000)

lemma kite_sums:
  "vsum (map (\<lambda>wv. smul (wedge_weight quad_mesh kite_pos 2 wv)
                       (kite_pos (he_vertex quad_mesh wv)))
           (vertex_circ_ccw quad_mesh 2)) vzero =
     Vec3d (Fin (403200000000 / 6400000001)) (Fin 0) (Fin 0)"
  "dsum (map (wedge_weight quad_mesh kite_pos 2) (vertex_circ_ccw quad_mesh 2)) (Fin 0) =
     Fin (- (7680000009600000000 / 23040000010000000001))"
  "vsum (map (\<lambda>wv. smul (wedge_weight quad_mesh kite_pos 0 wv)
                       (kite_pos (he_vertex quad_mesh wv)))
           (vertex_circ_ccw quad_mesh 0)) vzero =
     Vec3d (Fin (- (248371199505792000000 / 2822400004384000001))) (Fin 0) (Fin 0)"
  "dsum (map (wedge_weight quad_mesh kite_pos 0) (vertex_circ_ccw quad_mesh 0)) (Fin 0) =
     Fin (46233600020352000000 / 2822400004384000001)"
proof -
  have tip: "(vsum (map (\<lambda>wv. smul (wedge_weight quad_mesh kite_pos 2 wv)
                       (kite_pos (he_vertex quad_mesh wv)))
           (vertex_circ_ccw quad_mesh 2)) vzero,
        dsum (map (wedge_weight quad_mesh kite_pos 2) (vertex_circ_ccw quad_mesh 2)) (Fin 0)) =
     (Vec3d (Fin (403200000000 / 6400000001)) (Fin 0) (Fin 0),
      Fin (- (7680000009600000000 / 23040000010000000001)))"
    by (rule trans [OF cot_accumulate_sums [symmetric] cot_accumulate_tip])
  have reflex: "(vsum (map (\<lambda>wv. smul (wedge_weight quad_mesh kite_pos 0 wv)
                       (kite_pos (he_vertex quad_mesh wv)))
           (vertex_circ_ccw quad_mesh 0)) vzero,
        dsum (map (wedge_weight quad_mesh kite_pos 0) (vertex_circ_ccw quad_mesh 0)) (Fin 0)) =
     (Vec3d (Fin (- (248371199505792000000 / 2822400004384000001))) (Fin 0) (Fin 0),
      Fin (46233600020352000000 / 2822400004384000001))"
    by (rule trans [OF cot_accumulate_sums [symmetric] cot_accumulate_reflex])
  from tip show "vsum (map (\<lambda>wv. smul (wedge_weight quad_mesh kite_pos 2 wv)
                       (kite_pos (he_vertex quad_mesh wv)))
           (vertex_circ_ccw quad_mesh 2)) vzero =
     Vec3d (Fin (403200000000 / 6400000001)) (Fin 0) (Fin 0)"
    and "dsum (map (wedge_weight quad_mesh kite_pos 2) (vertex_circ_ccw quad_mesh 2)) (Fin 0) =
     Fin (- (7680000009600000000 / 23040000010000000001))"
    by (simp_all only: prod.inject)
  from reflex show "vsum (map (\<lambda>wv. smul (wedge_weight quad_mesh kite_pos 0 wv)
                       (kite_pos (he_vertex quad_mesh wv)))
           (vertex_circ_ccw quad_mesh 0)) vzero =
     Vec3d (Fin (- (248371199505792000000 / 2822400004384000001))) (Fin 0) (Fin 0)"
    and "dsum (map (wedge_weight quad_mesh kite_pos 0) (vertex_circ_ccw quad_mesh 0)) (Fin 0) =
     Fin (46233600020352000000 / 2822400004384000001)"
    by (simp_all only: prod.inject)
qed

text \<open>
  Claim C5 as stated fails on a one-ring of triangles that are not degenerate.  In the
  square mesh with the positions \<open>kite_pos\<close> both faces have the area 1050.  Around
  vertex 2 the two boundary edges get the weight \<open>-1.5\<close> each (the angle opposite to them
  is obtuse) and the inner edge gets \<open>2.67\<close>, so the weight sum is negative,
  \<open>cot_laplacian\<close> returns the zero vector, and the quotient of the two sums minus the
  position of the vertex is another vector.
\<close>

theorem cot_laplacian_kite_tip:
  "g_area quad_geometry kite_pos 0 = Fin 1050 \<and> g_area quad_geometry kite_pos 1 = Fin 1050 \<and>
   dsum (map (wedge_weight quad_mesh kite_pos 2) (vertex_circ_ccw quad_mesh 2)) (Fin 0) =
     Fin (- (7680000009600000000 / 23040000010000000001)) \<and>
   cot_laplacian quad_mesh kite_pos 2 = vzero \<and>
   vsub (vdiv (vsum (map (\<lambda>wv. smul (wedge_weight quad_mesh kite_pos 2 wv)
                                  (kite_pos (he_vertex quad_mesh wv)))
                      (vertex_circ_ccw quad_mesh 2)) vzero)
          (dsum (map (wedge_weight quad_mesh kite_pos 2) (vertex_circ_ccw quad_mesh 2)) (Fin 0)))
     (kite_pos 2) = Vec3d (Fin (- (70400000039 / 266666667))) (Fin 0) (Fin 0)"
proof (intro conjI)
  show "cot_laplacian quad_mesh kite_pos 2 = vzero"
    by (simp add: cot_laplacian_def cot_accumulate_tip)
  show "vsub (vdiv (vsum (map (\<lambda>wv. smul (wedge_weight quad_mesh kite_pos 2 wv)
                                  (kite_pos (he_vertex quad_mesh wv)))
                      (vertex_circ_ccw quad_mesh 2)) vzero)
          (dsum (map (wedge_weight quad_mesh kite_pos 2) (vertex_circ_ccw quad_mesh 2)) (Fin 0)))
     (kite_pos 2) = Vec3d (Fin (- (70400000039 / 266666667))) (Fin 0) (Fin 0)"
    unfolding kite_sums by (simp add: kite_pos_def dsub_def dbl_small')
qed (rule kite_areas kite_sums)+

theorem cot_laplacian_formula_witness:
  "g_area quad_geometry kite_pos 0 = Fin 1050 \<and> g_area quad_geometry kite_pos 1 = Fin 1050 \<and>
   \<not> dless (Fin (46233600020352000000 / 2822400004384000001)) (Fin (1 / 10 ^ 20)) \<and>
   \<not> has_nan (Vec3d (Fin (- (248371199505792000000 / 2822400004384000001))) (Fin 0) (Fin 0)) \<and>
   cot_laplacian quad_mesh kite_pos 0 =
     Vec3d (Fin (- (215599999571 / 40133333351))) (Fin 0) (Fin 0) \<and>
   dless (Fin (- (7680000009600000000 / 23040000010000000001))) (Fin (1 / 10 ^ 20)) \<and>
   cot_laplacian quad_mesh kite_pos 2 = vzero"
proof -
  note reflex = cot_laplacian_formula [of quad_mesh kite_pos 0]
  note tip = cot_laplacian_formula [of quad_mesh kite_pos 2]
  have ok: "\<not> dless (Fin (46233600020352000000 / 2822400004384000001)) (Fin (1 / 10 ^ 20))"
    "\<not> has_nan (Vec3d (Fin (- (248371199505792000000 / 2822400004384000001))) (Fin 0) (Fin 0))"
    by simp_all
  have fires: "dless (Fin (- (7680000009600000000 / 23040000010000000001))) (Fin (1 / 10 ^ 20))"
    by simp
  have val: "vsub (vdiv (Vec3d (Fin (- (248371199505792000000 / 2822400004384000001)))
                         (Fin 0) (Fin 0))
                   (Fin (46233600020352000000 / 2822400004384000001))) (kite_pos 0) =
      Vec3d (Fin (- (215599999571 / 40133333351))) (Fin 0) (Fin 0)"
    by (simp add: kite_pos_def dsub_def dbl_small')
  from reflex ok have "cot_laplacian quad_mesh kite_pos 0 =
      Vec3d (Fin (- (215599999571 / 40133333351))) (Fin 0) (Fin 0)"
    unfolding kite_sums val by blast
  moreover from tip fires have "cot_laplacian quad_mesh kite_pos 2 = vzero"
    unfolding kite_sums by blast
  ultimately show ?thesis
    using ok fires kite_areas by blast
qed

end
